theory Spec2Isabelle
  imports Complex_Main "HOL-Library.List_Lexorder" "HOL-Library.Char_ord"
begin

section \<open>Python values and exceptions\<close>

text \<open>
  The embedding follows the Python sources of the alert bot: \<^verbatim>\<open>app/utils/logs.py\<close>,
  \<^verbatim>\<open>app/services/fmp_hybrid.py\<close>, \<^verbatim>\<open>app/services/yahoo_direct.py\<close>,
  \<^verbatim>\<open>app/services/data_providers.py\<close> and \<^verbatim>\<open>app/analytics/alerts.py\<close>.
  Python floats (prices, clock readings, delays) are modelled as exact rationals.
  Every \<^verbatim>\<open>raise\<close> is a value \<open>Inl e\<close> of a sum type; the handlers of the source all
  catch \<^verbatim>\<open>Exception\<close>, so the constructors below only name the cause.
\<close>

datatype py_exn =
    OSError | JSONDecodeError | KeyError | TypeError | ValueError | ZeroDivisionError
  | RequestException | NoValidQuote

section \<open>The JSON log file: app/utils/logs.py\<close>

text \<open>
  A file holds either a JSON array (\<open>JsonArray\<close>, the only thing the module writes) or
  text that \<^verbatim>\<open>json.load\<close> rejects (\<open>Unparsable\<close>). The file system is a map from paths
  to contents. The items are JSON values, which \<^verbatim>\<open>json.dump\<close> and \<^verbatim>\<open>json.load\<close> give
  back unchanged. \<open>dir_ok path\<close> says whether \<^verbatim>\<open>os.makedirs(os.path.dirname(path),
  exist_ok=True)\<close> succeeds; where it does not, \<^verbatim>\<open>ensure\<close> raises.
\<close>

datatype 'a file_content = Unparsable | JsonArray "'a list"

type_synonym 'a file_system = "string \<Rightarrow> 'a file_content option"

definition ensure :: "(string \<Rightarrow> bool) \<Rightarrow> 'a file_system \<Rightarrow> string \<Rightarrow> py_exn + 'a file_system" where
  "ensure dir_ok fs path =
     (if \<not> dir_ok path then Inl OSError
      else if fs path = None then Inr (fs(path \<mapsto> JsonArray []))
      else Inr fs)"

definition read :: "(string \<Rightarrow> bool) \<Rightarrow> 'a file_system \<Rightarrow> string \<Rightarrow> py_exn + ('a list \<times> 'a file_system)" where
  "read dir_ok fs path =
     (case ensure dir_ok fs path of
        Inl e \<Rightarrow> Inl e
      | Inr fs1 \<Rightarrow>
          (case fs1 path of
             Some (JsonArray logs) \<Rightarrow> Inr (logs, fs1)
           | Some Unparsable \<Rightarrow> Inl JSONDecodeError
           | None \<Rightarrow> Inl OSError))"

definition append_item :: "(string \<Rightarrow> bool) \<Rightarrow> 'a file_system \<Rightarrow> string \<Rightarrow> 'a \<Rightarrow> py_exn + (bool \<times> 'a file_system)" where
  "append_item dir_ok fs path item =
     (case read dir_ok fs path of
        Inl e \<Rightarrow> Inl e
      | Inr (logs, fs1) \<Rightarrow>
          if item \<notin> set logs
          then Inr (True, fs1(path \<mapsto> JsonArray (logs @ [item])))
          else Inr (False, fs1))"

text \<open>The array a path stores; a file that does not exist yet is created empty by \<open>ensure\<close>.\<close>

definition stored :: "'a file_system \<Rightarrow> string \<Rightarrow> 'a list" where
  "stored fs path = (case fs path of Some (JsonArray logs) \<Rightarrow> logs | _ \<Rightarrow> [])"

section \<open>Provider responses\<close>

text \<open>
  A JSON object that a provider returns is modelled by the keys the code reads from it.
  \<open>fld\<close> is what \<^verbatim>\<open>obj.get(key)\<close> finds where the code converts with \<^verbatim>\<open>float\<close> or
  \<^verbatim>\<open>int\<close>: no such key, a number, or a value the conversion rejects (null, text).
\<close>

datatype fld = Missing | Num rat | Bad

record item =
  i_symbol :: "string option"
  i_name :: "string option"
  i_price :: fld
  i_change :: fld
  i_changesPercentage :: fld
  i_volume :: fld
  i_yearHigh :: fld
  i_yearLow :: fld
  i_date :: "string option"
  i_open :: fld
  i_high :: fld
  i_low :: fld
  i_close :: fld

text \<open>
  What \<^verbatim>\<open>response.json()\<close> gives for an FMP response: it raises (\<open>NotJson\<close>); an object
  with a non-empty \<^verbatim>\<open>'Error Message'\<close>; the empty object; a non-empty object without an
  error message, given by its \<^verbatim>\<open>'historical'\<close> list (empty when the key is absent); or
  an array of objects.
\<close>

datatype fmp_body = NotJson | ErrorMessage | EmptyObject | Object "item list" | Array "item list"

text \<open>\<^verbatim>\<open>requests.get\<close> raises, or returns a status code and a body.\<close>

datatype 'b response = Raised | Response nat 'b

text \<open>
  Yahoo: the \<^verbatim>\<open>meta\<close> object of a chart result, one row of its daily series (the
  timestamp with the entries of the five indicator lists at the same index, \<open>None\<close> for
  null), and one item of the v7 quote response.
\<close>

record meta =
  m_symbol :: "string option"
  m_longName :: "string option"
  m_regularMarketPrice :: "rat option"
  m_previousClose :: "rat option"
  m_regularMarketVolume :: "int option"
  m_fiftyTwoWeekHigh :: "rat option"
  m_fiftyTwoWeekLow :: "rat option"

record row =
  r_timestamp :: int
  r_open :: "rat option"
  r_high :: "rat option"
  r_low :: "rat option"
  r_close :: "rat option"
  r_volume :: "rat option"

record yitem =
  y_symbol :: "string option"
  y_longName :: "string option"
  y_shortName :: "string option"
  y_regularMarketPrice :: "rat option"
  y_regularMarketPreviousClose :: "rat option"
  y_regularMarketVolume :: "int option"
  y_fiftyTwoWeekHigh :: "rat option"
  y_fiftyTwoWeekLow :: "rat option"

text \<open>
  The company profile that \<^verbatim>\<open>get_yahoo_company_info\<close> builds; none of the functions
  modelled here reads more of it than that it exists.
\<close>

record company_info =
  ci_symbol :: string

text \<open>
  What \<^verbatim>\<open>response.json()\<close> gives for a Yahoo response: it raises; a value with none of
  the keys below (falsy values included); an object with the key \<^verbatim>\<open>'chart'\<close>, whose first
  result (\<open>None\<close>: the result list is empty or missing) has a \<^verbatim>\<open>meta\<close> object and a daily
  series (\<open>None\<close> where the key is missing or malformed, so that reading it raises); an
  object with \<^verbatim>\<open>'quoteResponse'\<close>, given by its result list; an object with
  \<^verbatim>\<open>'quoteSummary'\<close>, given by the profile that the parsing code builds from it (\<open>None\<close>:
  no result, or the parsing raises).
\<close>

datatype yahoo_body =
    YNotJson
  | YOther
  | YChart "(meta option \<times> row list option) option"
  | YQuoteResponse "yitem list"
  | YQuoteSummary "company_info option"

section \<open>Quotes, the environment and the process state\<close>

text \<open>
  The canonical quote dict. \<open>None\<close> in an optional field says that the dict has no such
  key (or holds \<^verbatim>\<open>None\<close> there): only FMP records carry \<^verbatim>\<open>yearHigh\<close> and \<^verbatim>\<open>yearLow\<close>, and
  \<^verbatim>\<open>source\<close> is set by the hybrid layer. The keys \<^verbatim>\<open>dayHigh\<close>, \<^verbatim>\<open>dayLow\<close>, \<^verbatim>\<open>marketCap\<close>
  and \<^verbatim>\<open>peRatio\<close> are read by nothing below and are left out.
\<close>

record quote =
  symbol :: string
  companyName :: "string option"
  price :: rat
  change :: rat
  changePercent :: rat
  volume :: int
  week52High :: rat
  week52Low :: rat
  yearHigh :: "rat option"
  yearLow :: "rat option"
  source :: "string option"

record bar =
  b_date :: "string option"
  b_open :: rat
  b_high :: rat
  b_low :: rat
  b_close :: rat
  b_volume :: int

datatype cached = CQuote quote | CHistory "rat list \<times> string option list \<times> bar list" | CInfo company_info

text \<open>
  The environment is everything the code does not decide: configuration read at import
  time, the providers' answers, the random generator and the library functions. The
  \<open>k\<close>-th HTTP request to a provider is answered by \<open>fmp_http env k\<close> (or \<open>yahoo_http\<close>) and
  takes \<open>fmp_took env k\<close> seconds; since the theorems hold for every environment, they
  hold whatever the URLs of the requests are. \<open>rnd env k\<close> is the \<open>k\<close>-th value of
  \<^verbatim>\<open>random.random()\<close> that a transport draws, \<open>seeded env s k\<close> the \<open>k\<close>-th one after
  \<^verbatim>\<open>random.seed(s)\<close>, \<open>seeded_int env s k\<close> what \<^verbatim>\<open>random.randint\<close> gives as the \<open>k\<close>-th draw
  after that seed; \<open>py_hash\<close> is \<^verbatim>\<open>hash\<close> on strings and \<open>day_of t\<close> is
  \<^verbatim>\<open>datetime.fromtimestamp(t).strftime('%Y-%m-%d')\<close>.
\<close>

record env =
  FMP_API_KEY :: bool
  HYBRID_AVAILABLE :: bool
  FMP_REQUEST_DELAY :: rat
  fmp_http :: "nat \<Rightarrow> fmp_body response"
  fmp_took :: "nat \<Rightarrow> rat"
  yahoo_http :: "nat \<Rightarrow> yahoo_body response"
  yahoo_took :: "nat \<Rightarrow> rat"
  rnd :: "nat \<Rightarrow> rat"
  seeded :: "int \<Rightarrow> nat \<Rightarrow> rat"
  seeded_int :: "int \<Rightarrow> nat \<Rightarrow> int"
  py_hash :: "string \<Rightarrow> int"
  day_of :: "int \<Rightarrow> string"

text \<open>
  The module-level variables of \<^verbatim>\<open>fmp_hybrid.py\<close> and \<^verbatim>\<open>yahoo_direct.py\<close> and the clock
  (\<open>now\<close> is what \<^verbatim>\<open>time.time()\<close> returns). Three fields are not in the source: they
  record what the process has done. \<open>fmp_sent\<close> and \<open>yahoo_sent\<close> hold the times of the
  HTTP requests made to each provider, and \<open>fmp_seen\<close> the responses that
  \<^verbatim>\<open>_make_fmp_request\<close> has received, each list with the newest entry first.
\<close>

record state =
  now :: rat
  draws :: nat
  FMP_ENABLED :: bool
  fmp_consecutive_forbidden :: nat
  last_fmp_request :: rat
  hybrid_quote_cache :: "string \<Rightarrow> quote option"
  hybrid_quote_ts :: "string \<Rightarrow> rat option"
  company_name_cache :: "string \<Rightarrow> string option"
  last_request :: rat
  quote_cache :: "string \<Rightarrow> cached option"
  cache_timestamps :: "string \<Rightarrow> rat option"
  fmp_sent :: "rat list"
  fmp_seen :: "fmp_body response list"
  yahoo_sent :: "rat list"

text \<open>The state of the process after the modules have been imported, at clock reading \<open>t\<close>.\<close>

definition initial_state :: "env \<Rightarrow> rat \<Rightarrow> state" where
  "initial_state env t =
     \<lparr>now = t, draws = 0, FMP_ENABLED = FMP_API_KEY env, fmp_consecutive_forbidden = 0,
      last_fmp_request = 0, hybrid_quote_cache = Map.empty, hybrid_quote_ts = Map.empty,
      company_name_cache = Map.empty, last_request = 0, quote_cache = Map.empty,
      cache_timestamps = Map.empty, fmp_sent = [], fmp_seen = [], yahoo_sent = []\<rparr>"

abbreviation FMP_FORBIDDEN_THRESHOLD :: nat where "FMP_FORBIDDEN_THRESHOLD \<equiv> 10"
abbreviation HYBRID_QUOTE_TTL :: rat where "HYBRID_QUOTE_TTL \<equiv> 60"
abbreviation RATE_LIMIT_DELAY :: rat where "RATE_LIMIT_DELAY \<equiv> 20"
abbreviation MAX_RETRIES :: nat where "MAX_RETRIES \<equiv> 6"
abbreviation CACHE_DURATION :: rat where "CACHE_DURATION \<equiv> 300"
abbreviation max_retries :: nat where "max_retries \<equiv> 3"
abbreviation base_delay :: rat where "base_delay \<equiv> 1 / 2"

text \<open>
  \<^verbatim>\<open>time.sleep(d)\<close> moves the clock by \<open>d\<close>; \<^verbatim>\<open>random.uniform(a, b)\<close> is
  \<^verbatim>\<open>a + (b - a) * random()\<close>, as in the standard library; an HTTP request is logged with
  the time at which it is made, and the clock moves by the time it takes.
\<close>

definition sleep :: "rat \<Rightarrow> state \<Rightarrow> state" where
  "sleep d st = st\<lparr>now := now st + d\<rparr>"

definition uniform :: "env \<Rightarrow> rat \<Rightarrow> rat \<Rightarrow> state \<Rightarrow> rat \<times> state" where
  "uniform env a b st = (a + (b - a) * rnd env (draws st), st\<lparr>draws := Suc (draws st)\<rparr>)"

definition fmp_get :: "env \<Rightarrow> state \<Rightarrow> fmp_body response \<times> state" where
  "fmp_get env st =
     (fmp_http env (length (fmp_sent st)),
      st\<lparr>now := now st + fmp_took env (length (fmp_sent st)), fmp_sent := now st # fmp_sent st\<rparr>)"

definition yahoo_get :: "env \<Rightarrow> state \<Rightarrow> yahoo_body response \<times> state" where
  "yahoo_get env st =
     (yahoo_http env (length (yahoo_sent st)),
      st\<lparr>now := now st + yahoo_took env (length (yahoo_sent st)), yahoo_sent := now st # yahoo_sent st\<rparr>)"

text \<open>\<^verbatim>\<open>str.upper\<close>, on ASCII letters.\<close>

definition to_upper :: "char \<Rightarrow> char" where
  "to_upper c =
     (case map_of (zip ''abcdefghijklmnopqrstuvwxyz'' ''ABCDEFGHIJKLMNOPQRSTUVWXYZ'') c of
        Some u \<Rightarrow> u
      | None \<Rightarrow> c)"

definition upper :: "string \<Rightarrow> string" where
  "upper s = map to_upper s"

section \<open>The FMP transport: fmp\_hybrid.py\<close>

definition fmp_rate_limit :: "env \<Rightarrow> state \<Rightarrow> state" where
  "fmp_rate_limit env st =
     (let time_since_last = now st - last_fmp_request st;
          st1 = (if time_since_last < FMP_REQUEST_DELAY env
                 then sleep (FMP_REQUEST_DELAY env - time_since_last) st else st)
      in st1\<lparr>last_fmp_request := now st1\<rparr>)"

text \<open>
  One pass through the body of \<^verbatim>\<open>for attempt in range(max_retries + 1)\<close> of
  \<^verbatim>\<open>_make_fmp_request\<close>: it ends in a \<^verbatim>\<open>return\<close> (\<open>Return\<close> with the value) or in a
  \<^verbatim>\<open>continue\<close> (\<open>Again\<close>). \<open>fmp_failed\<close> is the \<^verbatim>\<open>except\<close> branch, which
  \<^verbatim>\<open>requests.get\<close> and \<^verbatim>\<open>response.json()\<close> reach by raising.
\<close>

datatype 'b verdict = Return "'b option" | Again

definition fmp_attempt :: "env \<Rightarrow> nat \<Rightarrow> state \<Rightarrow> fmp_body verdict \<times> state" where
  "fmp_attempt env attempt st =
     (case fmp_get env (fmp_rate_limit env st) of (r, st1) \<Rightarrow>
      let st2 = st1\<lparr>fmp_seen := r # fmp_seen st1\<rparr>;
          fmp_failed = (if attempt < max_retries
                        then (Again, sleep (base_delay * 2 ^ attempt) st2)
                        else (Return None, st2))
      in case r of
           Raised \<Rightarrow> fmp_failed
         | Response status body \<Rightarrow>
             if status = 403 then
               let st3 = st2\<lparr>fmp_consecutive_forbidden := fmp_consecutive_forbidden st2 + 1\<rparr>
               in if fmp_consecutive_forbidden st3 \<ge> FMP_FORBIDDEN_THRESHOLD
                  then (Return None, st3\<lparr>FMP_ENABLED := False\<rparr>)
                  else (Return None, st3)
             else if status = 429 then
               (if attempt < max_retries
                then case uniform env (1 / 10) (3 / 10) st2 of (jitter, st3) \<Rightarrow>
                       (Again, sleep (base_delay * 2 ^ attempt + jitter) st3)
                else (Return None, st2))
             else if status = 404 then (Return None, st2)
             else if status \<noteq> 200 then (Return None, st2)
             else (case body of
                     NotJson \<Rightarrow> fmp_failed
                   | ErrorMessage \<Rightarrow> (Return None, st2)
                   | _ \<Rightarrow> (Return (Some body), st2\<lparr>fmp_consecutive_forbidden := 0\<rparr>)))"

text \<open>
  The loop over the attempts that are left (\<^verbatim>\<open>range(max_retries + 1)\<close> is the list
  0, 1, 2, 3); the empty list is the \<^verbatim>\<open>return None\<close> after the loop.
\<close>

fun fmp_attempts :: "env \<Rightarrow> nat list \<Rightarrow> state \<Rightarrow> fmp_body option \<times> state" where
  "fmp_attempts env [] st = (None, st)"
| "fmp_attempts env (attempt # rest) st =
     (case fmp_attempt env attempt st of
        (Return r, st1) \<Rightarrow> (r, st1)
      | (Again, st1) \<Rightarrow> fmp_attempts env rest st1)"

definition make_fmp_request :: "env \<Rightarrow> state \<Rightarrow> fmp_body option \<times> state" where
  "make_fmp_request env st =
     (if \<not> FMP_ENABLED st \<or> \<not> FMP_API_KEY env then (None, st)
      else fmp_attempts env [0, 1, 2, 3] st)"

section \<open>The Yahoo transport and cache: yahoo\_direct.py\<close>

definition wait_for_rate_limit :: "env \<Rightarrow> state \<Rightarrow> state" where
  "wait_for_rate_limit env st =
     (let elapsed = now st - last_request st;
          st1 = (if elapsed < RATE_LIMIT_DELAY
                 then case uniform env (1 / 2) (3 / 2) st of (jitter, st0) \<Rightarrow>
                        sleep ((RATE_LIMIT_DELAY - elapsed) * jitter) st0
                 else st)
      in st1\<lparr>last_request := now st1\<rparr>)"

text \<open>
  One pass through the body of \<^verbatim>\<open>for attempt in range(MAX_RETRIES)\<close> of
  \<^verbatim>\<open>_make_yahoo_request\<close>; \<^verbatim>\<open>break\<close> is \<open>Return None\<close>, for \<^verbatim>\<open>return None\<close> is what follows
  the loop. The choice of a user agent does not show in any result and is left out.
\<close>

definition yahoo_attempt :: "env \<Rightarrow> nat \<Rightarrow> state \<Rightarrow> yahoo_body verdict \<times> state" where
  "yahoo_attempt env attempt st =
     (case yahoo_get env (wait_for_rate_limit env st) of (r, st1) \<Rightarrow>
      let yahoo_failed = (if attempt < MAX_RETRIES - 1
                          then case uniform env (3 / 2) (5 / 2) st1 of (u, st2) \<Rightarrow>
                                 (Again, sleep ((1 + of_nat attempt) * u) st2)
                          else (Again, st1))
      in case r of
           Raised \<Rightarrow> yahoo_failed
         | Response status body \<Rightarrow>
             if status = 200 then
               (case body of YNotJson \<Rightarrow> yahoo_failed | _ \<Rightarrow> (Return (Some body), st1))
             else if status = 429 then
               (case uniform env (1 / 2) (3 / 2) st1 of (jitter, st2) \<Rightarrow>
                case uniform env 2 5 st2 of (extra, st3) \<Rightarrow>
                  (Again, sleep (2 ^ attempt * jitter + extra) st3))
             else if status = 403 \<or> status = 404 then (Return None, st1)
             else (Again, st1))"

text \<open>The loop over the attempts 0 to 5.\<close>

fun yahoo_attempts :: "env \<Rightarrow> nat list \<Rightarrow> state \<Rightarrow> yahoo_body option \<times> state" where
  "yahoo_attempts env [] st = (None, st)"
| "yahoo_attempts env (attempt # rest) st =
     (case yahoo_attempt env attempt st of
        (Return r, st1) \<Rightarrow> (r, st1)
      | (Again, st1) \<Rightarrow> yahoo_attempts env rest st1)"

definition make_yahoo_request :: "env \<Rightarrow> state \<Rightarrow> yahoo_body option \<times> state" where
  "make_yahoo_request env st = yahoo_attempts env [0, 1, 2, 3, 4, 5] st"

definition get_cache_key :: "string \<Rightarrow> string \<Rightarrow> string" where
  "get_cache_key symb request_type = upper symb @ ''_'' @ request_type"

definition is_cache_valid :: "state \<Rightarrow> string \<Rightarrow> bool" where
  "is_cache_valid st cache_key =
     (case cache_timestamps st cache_key of
        None \<Rightarrow> False
      | Some ts \<Rightarrow> now st - ts < CACHE_DURATION)"

definition get_from_cache :: "state \<Rightarrow> string \<Rightarrow> cached option" where
  "get_from_cache st cache_key =
     (if is_cache_valid st cache_key then quote_cache st cache_key else None)"

definition store_in_cache :: "string \<Rightarrow> cached \<Rightarrow> state \<Rightarrow> state" where
  "store_in_cache cache_key data st =
     st\<lparr>quote_cache := (quote_cache st)(cache_key \<mapsto> data),
        cache_timestamps := (cache_timestamps st)(cache_key \<mapsto> now st)\<rparr>"

text \<open>
  The cache is shared by quotes, histories and profiles; the keys of different kinds
  never coincide (the suffix is in lower case, the symbol in upper case), so a lookup
  that finds a value of another kind is treated as a miss.
\<close>

definition cached_quote :: "cached option \<Rightarrow> quote option" where
  "cached_quote c = (case c of Some (CQuote q) \<Rightarrow> Some q | _ \<Rightarrow> None)"

definition cached_history :: "cached option \<Rightarrow> (rat list \<times> string option list \<times> bar list) option" where
  "cached_history c = (case c of Some (CHistory h) \<Rightarrow> Some h | _ \<Rightarrow> None)"

definition cached_info :: "cached option \<Rightarrow> company_info option" where
  "cached_info c = (case c of Some (CInfo i) \<Rightarrow> Some i | _ \<Rightarrow> None)"

text \<open>
  What the parsing code finds in the value that \<^verbatim>\<open>_make_yahoo_request\<close> returned:
  \<^verbatim>\<open>data['chart']['result'][0]['meta']\<close>, the daily series of the same result, the profile
  of a quote summary, and \<^verbatim>\<open>data['quoteResponse'].get('result', [])\<close>. \<open>None\<close> stands for
  every case in which the code returns \<^verbatim>\<open>None\<close>, either by its checks or through its
  handler.
\<close>

definition chart_meta :: "yahoo_body option \<Rightarrow> meta option" where
  "chart_meta data = (case data of Some (YChart (Some (Some m, series))) \<Rightarrow> Some m | _ \<Rightarrow> None)"

definition chart_rows :: "yahoo_body option \<Rightarrow> row list option" where
  "chart_rows data = (case data of Some (YChart (Some (m, Some rows))) \<Rightarrow> Some rows | _ \<Rightarrow> None)"

definition summary_info :: "yahoo_body option \<Rightarrow> company_info option" where
  "summary_info data = (case data of Some (YQuoteSummary (Some info)) \<Rightarrow> Some info | _ \<Rightarrow> None)"

definition quote_response :: "yahoo_body option \<Rightarrow> yitem list" where
  "quote_response data = (case data of Some (YQuoteResponse items) \<Rightarrow> items | _ \<Rightarrow> [])"

text \<open>The dict literal of \<^verbatim>\<open>get_yahoo_quote\<close>.\<close>

definition chart_quote :: "string \<Rightarrow> meta \<Rightarrow> quote" where
  "chart_quote symb m =
     (let current_price = (case m_regularMarketPrice m of Some p \<Rightarrow> p | None \<Rightarrow> 0);
          prev_close = (case m_previousClose m of Some p \<Rightarrow> p | None \<Rightarrow> current_price);
          chg = current_price - prev_close;
          change_pct = (if prev_close \<noteq> 0 then chg / prev_close * 100 else 0)
      in \<lparr>symbol = (case m_symbol m of Some s \<Rightarrow> s | None \<Rightarrow> upper symb),
          companyName = Some (case m_longName m of
                                Some n \<Rightarrow> n | None \<Rightarrow> upper symb @ '' Corporation''),
          price = current_price,
          change = chg,
          changePercent = change_pct,
          volume = (case m_regularMarketVolume m of Some v \<Rightarrow> v | None \<Rightarrow> 0),
          week52High = (case m_fiftyTwoWeekHigh m of
                          Some h \<Rightarrow> h | None \<Rightarrow> current_price * (12 / 10)),
          week52Low = (case m_fiftyTwoWeekLow m of
                         Some l \<Rightarrow> l | None \<Rightarrow> current_price * (8 / 10)),
          yearHigh = None, yearLow = None, source = None\<rparr>)"

definition get_yahoo_quote :: "env \<Rightarrow> state \<Rightarrow> string \<Rightarrow> quote option \<times> state" where
  "get_yahoo_quote env st symb =
     (let cache_key = get_cache_key symb ''quote'' in
      case cached_quote (get_from_cache st cache_key) of
        Some cached_data \<Rightarrow> (Some cached_data, st)
      | None \<Rightarrow>
          (case make_yahoo_request env st of (data, st1) \<Rightarrow>
             case chart_meta data of
               Some m \<Rightarrow>
                 let quote_data = chart_quote symb m
                 in (Some quote_data, store_in_cache cache_key (CQuote quote_data) st1)
             | None \<Rightarrow> (None, st1)))"

definition get_yahoo_company_info :: "env \<Rightarrow> state \<Rightarrow> string \<Rightarrow> company_info option \<times> state" where
  "get_yahoo_company_info env st symb =
     (let cache_key = get_cache_key symb ''company_info'' in
      case cached_info (get_from_cache st cache_key) of
        Some cached_data \<Rightarrow> (Some cached_data, st)
      | None \<Rightarrow>
          (case make_yahoo_request env st of (data, st1) \<Rightarrow>
             case summary_info data of
               Some info \<Rightarrow> (Some info, store_in_cache cache_key (CInfo info) st1)
             | None \<Rightarrow> (None, st1)))"

text \<open>
  \<^verbatim>\<open>get_yahoo_history\<close>: the rows with a close, open, high and low become bars, in the
  order of the response.
\<close>

fun yahoo_bars :: "env \<Rightarrow> row list \<Rightarrow> rat list \<times> string option list \<times> bar list" where
  "yahoo_bars env [] = ([], [], [])"
| "yahoo_bars env (r # rs) =
     (case yahoo_bars env rs of (prices, dates, historical_data) \<Rightarrow>
      case (r_close r, r_open r, r_high r, r_low r) of
        (Some c, Some opn, Some h, Some l) \<Rightarrow>
          (c # prices, Some (day_of env (r_timestamp r)) # dates,
           \<lparr>b_date = Some (day_of env (r_timestamp r)), b_open = opn, b_high = h, b_low = l,
            b_close = c,
            b_volume = (case r_volume r of
                          Some v \<Rightarrow> if v \<noteq> 0 then (if 0 \<le> v then \<lfloor>v\<rfloor> else \<lceil>v\<rceil>) else 0
                        | None \<Rightarrow> 0)\<rparr> # historical_data)
      | _ \<Rightarrow> (prices, dates, historical_data))"

definition get_yahoo_history ::
  "env \<Rightarrow> state \<Rightarrow> string \<Rightarrow> string \<Rightarrow> (rat list \<times> string option list \<times> bar list) option \<times> state" where
  "get_yahoo_history env st symb period =
     (let cache_key = get_cache_key symb (''history_'' @ period) in
      case cached_history (get_from_cache st cache_key) of
        Some cached_data \<Rightarrow> (Some cached_data, st)
      | None \<Rightarrow>
          (case make_yahoo_request env st of (data, st1) \<Rightarrow>
             case chart_rows data of
               Some rows \<Rightarrow>
                 let result = yahoo_bars env rows
                 in (Some result, store_in_cache cache_key (CHistory result) st1)
             | None \<Rightarrow> (None, st1)))"

section \<open>The hybrid resolver: fmp\_hybrid.py\<close>

definition get_hybrid_cached_quote :: "state \<Rightarrow> string \<Rightarrow> quote option" where
  "get_hybrid_cached_quote st symb =
     (let key = upper symb in
      case hybrid_quote_ts st key of
        Some ts \<Rightarrow>
          if ts \<noteq> 0 \<and> now st - ts < HYBRID_QUOTE_TTL then hybrid_quote_cache st key else None
      | None \<Rightarrow> None)"

definition set_hybrid_cached_quote :: "string \<Rightarrow> quote \<Rightarrow> state \<Rightarrow> state" where
  "set_hybrid_cached_quote symb data st =
     (let key = upper symb in
      st\<lparr>hybrid_quote_cache := (hybrid_quote_cache st)(key \<mapsto> data),
         hybrid_quote_ts := (hybrid_quote_ts st)(key \<mapsto> now st)\<rparr>)"

text \<open>
  \<^verbatim>\<open>add_company_name_to_cache(symbol)\<close> without a name. Its FMP request goes to
  \<^verbatim>\<open>requests.get\<close> directly, after the rate-limit gate; \<open>first_name\<close> is the name it finds
  in a response with status 200 whose body is a non-empty list. In the Yahoo fallback
  (\<open>yahoo_name\<close>) the profile dict has neither \<^verbatim>\<open>'longName'\<close> nor \<^verbatim>\<open>'shortName'\<close> (and
  \<^verbatim>\<open>None.get\<close> raises into the handler), so the fallback never finds a name; it still
  makes its requests.
\<close>

definition first_name :: "fmp_body response \<Rightarrow> string option" where
  "first_name resp =
     (case resp of
        Response status (Array (d # ds)) \<Rightarrow>
          if status = 200
          then (case i_name d of Some name \<Rightarrow> if name \<noteq> [] then Some name else None | None \<Rightarrow> None)
          else None
      | _ \<Rightarrow> None)"

definition yahoo_name :: "env \<Rightarrow> state \<Rightarrow> string \<Rightarrow> string option \<times> state" where
  "yahoo_name env st key =
     (case get_yahoo_company_info env st key of (info, st1) \<Rightarrow> (None, st1))"

definition add_company_name_to_cache :: "env \<Rightarrow> state \<Rightarrow> string \<Rightarrow> string option \<times> state" where
  "add_company_name_to_cache env st symb =
     (let key = upper symb
      in if FMP_ENABLED st then
           (case fmp_get env (fmp_rate_limit env st) of (resp, st1) \<Rightarrow>
              case first_name resp of
                Some name \<Rightarrow>
                  (Some name, st1\<lparr>company_name_cache := (company_name_cache st1)(key \<mapsto> name)\<rparr>)
              | None \<Rightarrow> yahoo_name env st1 key)
         else yahoo_name env st key)"

definition get_cached_company_name :: "state \<Rightarrow> string \<Rightarrow> string option" where
  "get_cached_company_name st symb = company_name_cache st (upper symb)"

definition get_company_name :: "env \<Rightarrow> state \<Rightarrow> string \<Rightarrow> string option \<times> state" where
  "get_company_name env st symb =
     (let key = upper symb in
      case get_cached_company_name st key of
        Some name \<Rightarrow> if name \<noteq> [] then (Some name, st) else add_company_name_to_cache env st key
      | None \<Rightarrow> add_company_name_to_cache env st key)"

text \<open>\<^verbatim>\<open>float(obj.get(key, 0))\<close> and \<^verbatim>\<open>int(obj.get(key, 0))\<close>.\<close>

definition py_float :: "fld \<Rightarrow> py_exn + rat" where
  "py_float f = (case f of Missing \<Rightarrow> Inr 0 | Num r \<Rightarrow> Inr r | Bad \<Rightarrow> Inl TypeError)"

definition py_int :: "fld \<Rightarrow> py_exn + int" where
  "py_int f = (case f of
                 Missing \<Rightarrow> Inr 0
               | Num r \<Rightarrow> Inr (if 0 \<le> r then \<lfloor>r\<rfloor> else \<lceil>r\<rceil>)
               | Bad \<Rightarrow> Inl TypeError)"

text \<open>
  The dict literal that \<^verbatim>\<open>get_hybrid_stock_quote\<close> and \<^verbatim>\<open>get_multiple_hybrid_quotes\<close> both
  build from an FMP quote object; any of its conversions may raise.
\<close>

definition fmp_quote :: "string \<Rightarrow> string option \<Rightarrow> item \<Rightarrow> py_exn + quote" where
  "fmp_quote symb company_name q =
     (case (py_float (i_price q), py_float (i_change q), py_float (i_changesPercentage q),
            py_int (i_volume q), py_float (i_yearHigh q), py_float (i_yearLow q)) of
        (Inr p, Inr c, Inr cp, Inr v, Inr yh, Inr yl) \<Rightarrow>
          Inr \<lparr>symbol = symb, companyName = company_name, price = p, change = c,
               changePercent = cp, volume = v, week52High = yh, week52Low = yl,
               yearHigh = Some yh, yearLow = Some yl, source = Some ''fmp''\<rparr>
      | _ \<Rightarrow> Inl TypeError)"

text \<open>
  \<^verbatim>\<open>get_hybrid_stock_quote\<close>. The dict that \<^verbatim>\<open>get_yahoo_quote\<close> returns is the object that
  the Yahoo cache holds, so \<^verbatim>\<open>yahoo_data['source'] = 'yahoo'\<close> changes the cached entry
  too. \<open>first_object\<close> is \<^verbatim>\<open>fmp_data[0]\<close> behind the test \<^verbatim>\<open>fmp_data and len(fmp_data) > 0\<close>:
  a body that is a non-empty object makes the indexing raise, and no handler in this
  function catches it.
\<close>

definition yahoo_fallback :: "env \<Rightarrow> state \<Rightarrow> string \<Rightarrow> (py_exn + quote option) \<times> state" where
  "yahoo_fallback env st symb =
     (case get_yahoo_quote env st symb of
        (Some yahoo_data, st1) \<Rightarrow>
          let tagged = yahoo_data\<lparr>source := Some ''yahoo''\<rparr>;
              st2 = st1\<lparr>quote_cache :=
                          (quote_cache st1)(get_cache_key symb ''quote'' \<mapsto> CQuote tagged)\<rparr>
          in (Inr (Some tagged), set_hybrid_cached_quote symb tagged st2)
      | (None, st1) \<Rightarrow> (Inr None, st1))"

definition first_object :: "fmp_body option \<Rightarrow> py_exn + item option" where
  "first_object fmp_data =
     (case fmp_data of
        Some (Array (q # qs)) \<Rightarrow> Inr (Some q)
      | Some (Object hs) \<Rightarrow> Inl KeyError
      | _ \<Rightarrow> Inr None)"

definition get_hybrid_stock_quote :: "env \<Rightarrow> state \<Rightarrow> string \<Rightarrow> (py_exn + quote option) \<times> state" where
  "get_hybrid_stock_quote env st symb =
     (case get_hybrid_cached_quote st symb of
        Some cached_data \<Rightarrow> (Inr (Some cached_data), st)
      | None \<Rightarrow>
          if FMP_ENABLED st then
            (case make_fmp_request env st of (fmp_data, st1) \<Rightarrow>
               case first_object fmp_data of
                 Inr (Some q) \<Rightarrow>
                   (case get_company_name env st1 symb of (company_name, st2) \<Rightarrow>
                      case fmp_quote (case i_symbol q of Some s \<Rightarrow> s | None \<Rightarrow> upper symb)
                             company_name q of
                        Inl e \<Rightarrow> (Inl e, st2)
                      | Inr result \<Rightarrow> (Inr (Some result), set_hybrid_cached_quote symb result st2))
               | Inl e \<Rightarrow> (Inl e, st1)
               | Inr None \<Rightarrow> yahoo_fallback env st1 symb)
          else yahoo_fallback env st symb)"

section \<open>The entry point for one quote: data\_providers.py\<close>

definition mock_companies :: "string \<Rightarrow> (string \<times> rat) option" where
  "mock_companies s =
     (if s = ''AAPL'' then Some (''Apple Inc.'', 270)
      else if s = ''MSFT'' then Some (''Microsoft Corporation'', 510)
      else if s = ''GOOGL'' then Some (''Alphabet Inc.'', 275)
      else if s = ''TSLA'' then Some (''Tesla, Inc.'', 350)
      else if s = ''AMZN'' then Some (''Amazon.com, Inc.'', 180)
      else if s = ''NVDA'' then Some (''NVIDIA Corporation'', 480)
      else if s = ''META'' then Some (''Meta Platforms, Inc.'', 300)
      else None)"

text \<open>
  \<^verbatim>\<open>create_mock_quote\<close>. The draws after \<^verbatim>\<open>random.seed(hash(symbol) % 1000)\<close> are taken in
  the order of the dict literal: price, change, volume, dayHigh, dayLow, week52High,
  week52Low. The division raises when \<^verbatim>\<open>price - change\<close> is zero. The returned dict has
  no key \<^verbatim>\<open>'source'\<close>.
\<close>

definition create_mock_quote :: "env \<Rightarrow> string \<Rightarrow> py_exn + quote" where
  "create_mock_quote env symb =
     (let company = (case mock_companies (upper symb) of
                       Some c \<Rightarrow> c | None \<Rightarrow> (upper symb @ '' Corporation'', 100));
          seed = py_hash env symb mod 1000;
          u = (\<lambda>k a b. a + (b - a) * seeded env seed k);
          p = snd company * (1 + u 0 (- (5 / 100)) (5 / 100));
          c = p * u 1 (- (3 / 100)) (3 / 100)
      in if p - c = 0 then Inl ZeroDivisionError
         else Inr \<lparr>symbol = upper symb, companyName = Some (fst company), price = p, change = c,
                   changePercent = (c / (p - c)) * 100,
                   volume = seeded_int env seed 2,
                   week52High = p * u 5 (11 / 10) (14 / 10),
                   week52Low = p * u 6 (6 / 10) (9 / 10),
                   yearHigh = None, yearLow = None, source = None\<rparr>)"

text \<open>
  \<^verbatim>\<open>get_stock_quote\<close>. Both \<^verbatim>\<open>try\<close> blocks catch every exception, the one they raise
  themselves for an invalid quote included; what follows them is the mock quote.
\<close>

definition get_stock_quote :: "env \<Rightarrow> state \<Rightarrow> string \<Rightarrow> (py_exn + quote option) \<times> state" where
  "get_stock_quote env st symb =
     (let mock = (\<lambda>st0. (case create_mock_quote env symb of
                            Inl e \<Rightarrow> Inl e | Inr q \<Rightarrow> Inr (Some q), st0))
      in if HYBRID_AVAILABLE env then
           (case get_hybrid_stock_quote env st symb of
              (Inr (Some q), st1) \<Rightarrow> if price q > 0 then (Inr (Some q), st1) else mock st1
            | (r, st1) \<Rightarrow> mock st1)
         else
           (case get_yahoo_quote env st symb of
              (Some q, st1) \<Rightarrow> if price q > 0 then (Inr (Some q), st1) else mock st1
            | (None, st1) \<Rightarrow> mock st1))"

section \<open>Batches of quotes\<close>

text \<open>
  A Python dict that the code iterates over is an association list in insertion order;
  \<open>dict_set\<close> is \<^verbatim>\<open>d[k] = v\<close> and \<open>map_of\<close> is \<^verbatim>\<open>d.get(k)\<close>.
\<close>

type_synonym 'v dict = "(string \<times> 'v) list"

fun dict_set :: "string \<Rightarrow> 'v \<Rightarrow> 'v dict \<Rightarrow> 'v dict" where
  "dict_set k v [] = [(k, v)]"
| "dict_set k v ((k1, v1) # d) = (if k = k1 then (k, v) # d else (k1, v1) # dict_set k v d)"

text \<open>The loop of \<^verbatim>\<open>get_yahoo_batch_quotes\<close> that keeps the first occurrence of each symbol.\<close>

fun dedup_upper :: "string list \<Rightarrow> string list \<Rightarrow> string list" where
  "dedup_upper uniq [] = uniq"
| "dedup_upper uniq (s # ss) =
     (if upper s \<in> set uniq then dedup_upper uniq ss else dedup_upper (uniq @ [upper s]) ss)"

definition yahoo_item_quote :: "string \<Rightarrow> yitem \<Rightarrow> quote" where
  "yahoo_item_quote symb it =
     (let current_price = (case y_regularMarketPrice it of Some p \<Rightarrow> p | None \<Rightarrow> 0);
          prev_close = (case y_regularMarketPreviousClose it of Some p \<Rightarrow> p | None \<Rightarrow> current_price);
          chg = current_price - prev_close;
          change_pct = (if prev_close \<noteq> 0 then chg / prev_close * 100 else 0);
          name = (case y_longName it of
                    Some n \<Rightarrow> if n \<noteq> [] then Some n else None | None \<Rightarrow> None);
          short = (case y_shortName it of
                     Some n \<Rightarrow> if n \<noteq> [] then Some n else None | None \<Rightarrow> None)
      in \<lparr>symbol = symb,
          companyName = Some (case name of
                                Some n \<Rightarrow> n
                              | None \<Rightarrow> (case short of Some n \<Rightarrow> n | None \<Rightarrow> symb)),
          price = current_price, change = chg, changePercent = change_pct,
          volume = (case y_regularMarketVolume it of Some v \<Rightarrow> v | None \<Rightarrow> 0),
          week52High = (case y_fiftyTwoWeekHigh it of Some h \<Rightarrow> h | None \<Rightarrow> current_price),
          week52Low = (case y_fiftyTwoWeekLow it of Some l \<Rightarrow> l | None \<Rightarrow> current_price),
          yearHigh = None, yearLow = None, source = None\<rparr>)"

fun yahoo_items :: "yitem list \<Rightarrow> quote dict \<Rightarrow> state \<Rightarrow> quote dict \<times> state" where
  "yahoo_items [] results st = (results, st)"
| "yahoo_items (it # rest) results st =
     (case y_symbol it of
        None \<Rightarrow> yahoo_items rest results st
      | Some symb \<Rightarrow>
          if symb = [] then yahoo_items rest results st
          else let quote_data = yahoo_item_quote symb it
               in yahoo_items rest (dict_set symb quote_data results)
                    (store_in_cache (get_cache_key symb ''quote'') (CQuote quote_data) st))"

fun yahoo_singles :: "env \<Rightarrow> string list \<Rightarrow> quote dict \<Rightarrow> state \<Rightarrow> quote dict \<times> state" where
  "yahoo_singles env [] results st = (results, st)"
| "yahoo_singles env (s # rest) results st =
     (case get_yahoo_quote env st s of
        (Some single, st1) \<Rightarrow> yahoo_singles env rest (dict_set s single results) st1
      | (None, st1) \<Rightarrow> yahoo_singles env rest results st1)"

definition get_yahoo_batch_quotes :: "env \<Rightarrow> state \<Rightarrow> string list \<Rightarrow> quote dict \<times> state" where
  "get_yahoo_batch_quotes env st symbols =
     (if symbols = [] then ([], st)
      else let uniq = dedup_upper [] symbols
           in case make_yahoo_request env st of (data, st1) \<Rightarrow>
                if quote_response data \<noteq> []
                then yahoo_items (quote_response data) [] st1
                else yahoo_singles env uniq [] st1)"

text \<open>
  \<^verbatim>\<open>get_multiple_quotes\<close> and \<^verbatim>\<open>get_quotes_with_smart_delays\<close> of yahoo\_direct.py. In the
  second one the \<^verbatim>\<open>return results\<close> stands inside the loop over the batches, so only the
  first batch of three symbols is ever fetched.
\<close>

fun get_multiple_quotes_from ::
  "env \<Rightarrow> bool \<Rightarrow> nat \<Rightarrow> string list \<Rightarrow> quote dict \<Rightarrow> state \<Rightarrow> quote dict \<times> state" where
  "get_multiple_quotes_from env use_delays i [] results st = (results, st)"
| "get_multiple_quotes_from env use_delays i (s # rest) results st =
     (case get_yahoo_quote env st s of (q, st1) \<Rightarrow>
        get_multiple_quotes_from env use_delays (i + 1) rest
          (case q of Some q1 \<Rightarrow> dict_set s q1 results | None \<Rightarrow> results)
          (if use_delays \<and> rest \<noteq> []
           then sleep (if (i + 1) mod 2 = 0 then 60 else 30) st1 else st1))"

definition get_multiple_quotes :: "env \<Rightarrow> state \<Rightarrow> string list \<Rightarrow> bool \<Rightarrow> quote dict \<times> state" where
  "get_multiple_quotes env st symbols use_delays =
     get_multiple_quotes_from env use_delays 0 symbols [] st"

definition get_quotes_with_smart_delays :: "env \<Rightarrow> state \<Rightarrow> string list \<Rightarrow> quote dict \<times> state" where
  "get_quotes_with_smart_delays env st symbols =
     (if length symbols \<le> 3 then get_multiple_quotes env st symbols True
      else case get_multiple_quotes env st (take 3 symbols) True of
             (batch_results, st1) \<Rightarrow> (batch_results, sleep 60 st1))"

text \<open>
  \<^verbatim>\<open>get_multiple_hybrid_quotes\<close>. \<open>fmp_items\<close> is the loop over the objects of one FMP
  batch and \<open>fmp_batches\<close> the loop over the batches; the first component of their result
  says that a conversion raised, which ends the \<^verbatim>\<open>try\<close> block with what has been
  served so far. \<open>batch_items\<close> is the response where it is a list, and empty where the
  code skips the batch. \<^verbatim>\<open>range\<close> with a step of zero raises inside that block as well.
\<close>

fun fmp_items ::
  "item list \<Rightarrow> quote dict \<Rightarrow> string list \<Rightarrow> state \<Rightarrow> bool \<times> quote dict \<times> string list \<times> state" where
  "fmp_items [] results fmp_served st = (False, results, fmp_served, st)"
| "fmp_items (it # rest) results fmp_served st =
     (case i_symbol it of
        None \<Rightarrow> fmp_items rest results fmp_served st
      | Some symb \<Rightarrow>
          if symb = [] then fmp_items rest results fmp_served st
          else
            let company_name = i_name it;
                st1 = (case company_name of
                         Some n \<Rightarrow>
                           if n \<noteq> []
                           then st\<lparr>company_name_cache := (company_name_cache st)(upper symb \<mapsto> n)\<rparr>
                           else st
                       | None \<Rightarrow> st)
            in case fmp_quote symb company_name it of
                 Inl e \<Rightarrow> (True, results, fmp_served, st1)
               | Inr standardized \<Rightarrow>
                   fmp_items rest (dict_set symb standardized results) (fmp_served @ [symb])
                     (set_hybrid_cached_quote symb standardized st1))"

definition batch_items :: "fmp_body option \<Rightarrow> item list" where
  "batch_items data = (case data of Some (Array items) \<Rightarrow> items | _ \<Rightarrow> [])"

fun fmp_batches ::
  "env \<Rightarrow> string list list \<Rightarrow> quote dict \<Rightarrow> string list \<Rightarrow> state
     \<Rightarrow> bool \<times> quote dict \<times> string list \<times> state" where
  "fmp_batches env [] results fmp_served st = (False, results, fmp_served, st)"
| "fmp_batches env (batch # rest) results fmp_served st =
     (case make_fmp_request env st of (data, st1) \<Rightarrow>
        if batch_items data \<noteq> [] then
          (case fmp_items (batch_items data) results fmp_served st1 of
             (raised, results1, fmp_served1, st2) \<Rightarrow>
               if raised then (True, results1, fmp_served1, st2)
               else fmp_batches env rest results1 fmp_served1 st2)
        else fmp_batches env rest results fmp_served st1)"

fun chunks :: "nat \<Rightarrow> 'a list \<Rightarrow> 'a list list" where
  "chunks n xs = (if n = 0 \<or> xs = [] then [] else take n xs # chunks n (drop n xs))"

text \<open>
  The loop over \<^verbatim>\<open>yahoo_map.items()\<close>. \<^verbatim>\<open>q['source'] = 'yahoo'\<close> writes to the dict object
  itself; where the Yahoo cache still holds that object under the symbol's key, the
  cached entry changes with it.
\<close>

fun yahoo_merge :: "quote dict \<Rightarrow> quote dict \<Rightarrow> state \<Rightarrow> quote dict \<times> state" where
  "yahoo_merge [] results st = (results, st)"
| "yahoo_merge ((symb, q) # rest) results st =
     (let tagged = q\<lparr>source := Some ''yahoo''\<rparr>;
          cache_key = get_cache_key symb ''quote'';
          st1 = (if quote_cache st cache_key = Some (CQuote q)
                 then st\<lparr>quote_cache := (quote_cache st)(cache_key \<mapsto> CQuote tagged)\<rparr>
                 else st)
      in yahoo_merge rest (dict_set symb tagged results) (set_hybrid_cached_quote symb tagged st1))"

definition get_multiple_hybrid_quotes ::
  "env \<Rightarrow> state \<Rightarrow> string list \<Rightarrow> nat \<Rightarrow> quote dict \<times> state" where
  "get_multiple_hybrid_quotes env st symbols max_fmp_calls =
     (if symbols = [] then ([], st)
      else
        let results0 = fold (\<lambda>s results. case get_hybrid_cached_quote st s of
                                            Some cached_data \<Rightarrow> dict_set s cached_data results
                                          | None \<Rightarrow> results) symbols [];
            remaining = filter (\<lambda>s. get_hybrid_cached_quote st s = None) symbols
        in if remaining = [] then (results0, st)
           else
             case (if FMP_ENABLED st
                   then (if max_fmp_calls = 0 then (True, results0, [], st)
                         else fmp_batches env (chunks max_fmp_calls remaining) results0 [] st)
                   else (False, results0, [], st)) of
               (raised, results1, fmp_served, st1) \<Rightarrow>
                 let yahoo_symbols = filter (\<lambda>s. upper s \<notin> set fmp_served) remaining
                 in if yahoo_symbols = [] then (results1, st1)
                    else case get_yahoo_batch_quotes env st1 yahoo_symbols of
                           (yahoo_map, st2) \<Rightarrow> yahoo_merge yahoo_map results1 st2)"

text \<open>
  \<^verbatim>\<open>get_multiple_stock_quotes\<close> of data\_providers.py. \<open>add_mocks\<close> is the loop that fills in
  a mock quote for every symbol the batch did not serve; \<open>hybrid_one_by_one\<close> is the
  handler of the hybrid branch, whose own handler calls \<^verbatim>\<open>create_mock_quote\<close> outside any
  \<^verbatim>\<open>try\<close>. In the branch without the hybrid module the imports are taken to succeed.
\<close>

fun add_mocks :: "env \<Rightarrow> string list \<Rightarrow> quote dict \<Rightarrow> py_exn + quote dict" where
  "add_mocks env [] results = Inr results"
| "add_mocks env (s # rest) results =
     (if map_of results s = None \<and> map_of results (upper s) = None
      then case create_mock_quote env s of
             Inl e \<Rightarrow> Inl e
           | Inr q \<Rightarrow> add_mocks env rest (dict_set s q results)
      else add_mocks env rest results)"

fun hybrid_one_by_one ::
  "env \<Rightarrow> string list \<Rightarrow> quote dict \<Rightarrow> state \<Rightarrow> (py_exn + quote dict) \<times> state" where
  "hybrid_one_by_one env [] results st = (Inr results, st)"
| "hybrid_one_by_one env (s # rest) results st =
     (case get_hybrid_stock_quote env st s of
        (Inr (Some q), st1) \<Rightarrow> hybrid_one_by_one env rest (dict_set s q results) st1
      | (r, st1) \<Rightarrow>
          (case create_mock_quote env s of
             Inl e \<Rightarrow> (Inl e, st1)
           | Inr q \<Rightarrow> hybrid_one_by_one env rest (dict_set s q results) st1))"

definition get_multiple_stock_quotes ::
  "env \<Rightarrow> state \<Rightarrow> string list \<Rightarrow> bool \<Rightarrow> (py_exn + quote dict) \<times> state" where
  "get_multiple_stock_quotes env st symbols use_smart_delays =
     (if symbols = [] then (Inr [], st)
      else if HYBRID_AVAILABLE env then
        (case get_multiple_hybrid_quotes env st symbols (min 5 (length symbols)) of
           (results, st1) \<Rightarrow>
             (case add_mocks env symbols results of
                Inr results1 \<Rightarrow> (Inr results1, st1)
              | Inl e \<Rightarrow> hybrid_one_by_one env symbols [] st1))
      else if use_smart_delays \<and> length symbols > 3
        then (case get_quotes_with_smart_delays env st symbols of (r, st1) \<Rightarrow> (Inr r, st1))
        else (case get_multiple_quotes env st symbols True of (r, st1) \<Rightarrow> (Inr r, st1)))"

section \<open>Historical series\<close>

record history =
  h_symbol :: string
  h_prices :: "rat list"
  h_dates :: "string option list"
  h_data :: "bar list"
  h_source :: string

definition period_map :: "string \<Rightarrow> nat" where
  "period_map period =
     (if period = ''1d'' then 1 else if period = ''5d'' then 5
      else if period = ''1mo'' then 30 else if period = ''3mo'' then 90
      else if period = ''6mo'' then 180 else if period = ''1y'' then 365
      else if period = ''2y'' then 730 else if period = ''5y'' then 1825
      else 365)"

text \<open>
  The loop over the bars of \<^verbatim>\<open>get_hybrid_stock_history\<close>. A bar whose close converts but
  whose open, high, low or volume does not has already been added to \<^verbatim>\<open>prices\<close> and
  \<^verbatim>\<open>dates\<close> when the conversion raises.
\<close>

fun fmp_bars :: "item list \<Rightarrow> rat list \<times> string option list \<times> bar list" where
  "fmp_bars [] = ([], [], [])"
| "fmp_bars (h # hs) =
     (case fmp_bars hs of (prices, dates, ohlcv_data) \<Rightarrow>
      case py_float (i_close h) of
        Inl e \<Rightarrow> (prices, dates, ohlcv_data)
      | Inr c \<Rightarrow>
          (case (py_float (i_open h), py_float (i_high h), py_float (i_low h), py_int (i_volume h)) of
             (Inr opn, Inr hi, Inr lo, Inr v) \<Rightarrow>
               (c # prices, i_date h # dates,
                \<lparr>b_date = i_date h, b_open = opn, b_high = hi, b_low = lo, b_close = c,
                 b_volume = v\<rparr> # ohlcv_data)
           | _ \<Rightarrow> (c # prices, i_date h # dates, ohlcv_data)))"

definition yahoo_history ::
  "env \<Rightarrow> state \<Rightarrow> string \<Rightarrow> string \<Rightarrow> history option \<times> state" where
  "yahoo_history env st symb period =
     (case get_yahoo_history env st symb period of
        (Some (prices, dates, historical_data), st1) \<Rightarrow>
          (Some \<lparr>h_symbol = upper symb, h_prices = prices, h_dates = dates,
                 h_data = historical_data, h_source = ''yahoo''\<rparr>, st1)
      | (None, st1) \<Rightarrow> (None, st1))"

text \<open>
  The bars that \<^verbatim>\<open>get_hybrid_stock_history\<close> finds in the response: the \<^verbatim>\<open>'historical'\<close>
  entry of an object, or a bare list whose first object has a \<^verbatim>\<open>'date'\<close>.
\<close>

definition fmp_historical :: "fmp_body option \<Rightarrow> item list" where
  "fmp_historical hist_data =
     (case hist_data of
        Some (Object hs) \<Rightarrow> hs
      | Some (Array (d # ds)) \<Rightarrow> if i_date d \<noteq> None then d # ds else []
      | _ \<Rightarrow> [])"

definition get_hybrid_stock_history ::
  "env \<Rightarrow> state \<Rightarrow> string \<Rightarrow> string \<Rightarrow> history option \<times> state" where
  "get_hybrid_stock_history env st symb period =
     (if FMP_ENABLED st then
        (let days = period_map period in
         case make_fmp_request env st of (hist_data, st1) \<Rightarrow>
           let historical = fmp_historical hist_data
           in if historical \<noteq> [] then
                (let recent = (if days < length historical then take days historical else historical)
                 in case fmp_bars (rev recent) of (prices, dates, ohlcv_data) \<Rightarrow>
                      if prices \<noteq> [] \<and> dates \<noteq> []
                      then (Some \<lparr>h_symbol = upper symb, h_prices = prices, h_dates = dates,
                                   h_data = ohlcv_data, h_source = ''fmp''\<rparr>, st1)
                      else yahoo_history env st1 symb period)
              else yahoo_history env st1 symb period)
      else yahoo_history env st symb period)"

section \<open>The 52-week-high evaluator: alerts.py\<close>

text \<open>
  The text of a Telegram message is not modelled: a message is given by its kind and by
  the dedup key of the event it reports (or by the stock, for the error message of the
  handler). \<open>telegram_ok m\<close> says that \<^verbatim>\<open>send_telegram_message\<close> returns for \<open>m\<close>; where
  it does not, the call raises. \<open>sent\<close> records the messages sent, oldest first. The
  three formatting functions are Python's \<^verbatim>\<open>str\<close> of a number, the format \<^verbatim>\<open>.2f\<close> and
  \<^verbatim>\<open>str\<close> of an integer.
\<close>

datatype alert_kind = NewHigh | ApproachingHigh | WatchZone

datatype message = Alert alert_kind string | ErrorChecking string

record alert_env =
  str_float :: "rat \<Rightarrow> string"
  format_2f :: "rat \<Rightarrow> string"
  str_int :: "int \<Rightarrow> string"
  telegram_ok :: "message \<Rightarrow> bool"

record alert_state =
  files :: "string file_system"
  sent :: "message list"

abbreviation file_log_name :: string where "file_log_name \<equiv> ''52_week_high_log.txt''"

definition get_log :: "string file_system \<Rightarrow> string \<Rightarrow> string list" where
  "get_log fs name =
     (case fs name of
        Some (JsonArray logs) \<Rightarrow> logs
      | Some Unparsable \<Rightarrow> []
      | None \<Rightarrow> [])"

definition send_telegram_message :: "alert_env \<Rightarrow> message \<Rightarrow> alert_state \<Rightarrow> py_exn + alert_state" where
  "send_telegram_message aenv m ast =
     (if telegram_ok aenv m then Inr (ast\<lparr>sent := sent ast @ [m]\<rparr>) else Inl RequestException)"

text \<open>\<^verbatim>\<open>quotes.get(stock) or quotes.get(stock.upper())\<close>\<close>

definition lookup_quote :: "quote dict \<Rightarrow> string \<Rightarrow> quote option" where
  "lookup_quote quotes stock =
     (case map_of quotes stock of Some q \<Rightarrow> Some q | None \<Rightarrow> map_of quotes (upper stock))"

text \<open>
  \<open>notify\<close> is what both alert branches do once the key is new: append it to the list in
  memory, send, and only then write the whole list to the file.
\<close>

definition notify ::
  "alert_env \<Rightarrow> alert_kind \<Rightarrow> string \<Rightarrow> string list \<Rightarrow> alert_state
     \<Rightarrow> py_exn option \<times> string list \<times> alert_state" where
  "notify aenv kind key high_log ast =
     (if key \<notin> set high_log then
        (case send_telegram_message aenv (Alert kind key) ast of
           Inl e \<Rightarrow> (Some e, high_log @ [key], ast)
         | Inr ast1 \<Rightarrow>
             (None, high_log @ [key],
              ast1\<lparr>files := (files ast1)(file_log_name \<mapsto> JsonArray (high_log @ [key]))\<rparr>))
      else (None, high_log, ast))"

text \<open>The body of the \<^verbatim>\<open>try\<close> block for one stock; \<open>Some e\<close> says that it raised.\<close>

definition check_stock ::
  "alert_env \<Rightarrow> rat \<Rightarrow> quote dict \<Rightarrow> string \<Rightarrow> string list \<Rightarrow> alert_state
     \<Rightarrow> py_exn option \<times> string list \<times> alert_state" where
  "check_stock aenv threshold_pct quotes stock high_log ast =
     (case lookup_quote quotes stock of
        None \<Rightarrow> (None, high_log, ast)
      | Some q \<Rightarrow>
          let current_price = price q;
              year_high = (if week52High q \<noteq> 0 then Some (week52High q) else yearHigh q)
          in case year_high of
               None \<Rightarrow> (None, high_log, ast)
             | Some yh \<Rightarrow>
                 if current_price \<noteq> 0 \<and> yh \<noteq> 0 then
                   let pct_from_high = (current_price - yh) / yh * 100;
                       alert_key = symbol q @ ''_'' @ str_float aenv yh @ ''_''
                                     @ format_2f aenv current_price
                   in if pct_from_high \<ge> - threshold_pct then
                        notify aenv (if pct_from_high \<ge> 0 then NewHigh else ApproachingHigh)
                          alert_key high_log ast
                      else if - 15 \<le> pct_from_high \<and> pct_from_high \<le> - 5 then
                        notify aenv WatchZone
                          (symbol q @ ''_near_high_'' @ str_int aenv \<lfloor>\<bar>pct_from_high\<bar>\<rfloor>)
                          high_log ast
                      else (None, high_log, ast)
                 else (None, high_log, ast))"

text \<open>
  The loop over \<^verbatim>\<open>STOCKS_TO_CHECK\<close> with its handler, which sends an error message; if
  that raises too, the exception leaves the function (first component \<open>True\<close>).
\<close>

fun check_stocks ::
  "alert_env \<Rightarrow> rat \<Rightarrow> quote dict \<Rightarrow> string list \<Rightarrow> string list \<Rightarrow> alert_state
     \<Rightarrow> bool \<times> string list \<times> alert_state" where
  "check_stocks aenv threshold_pct quotes [] high_log ast = (False, high_log, ast)"
| "check_stocks aenv threshold_pct quotes (stock # rest) high_log ast =
     (case check_stock aenv threshold_pct quotes stock high_log ast of
        (None, high_log1, ast1) \<Rightarrow> check_stocks aenv threshold_pct quotes rest high_log1 ast1
      | (Some e, high_log1, ast1) \<Rightarrow>
          (case send_telegram_message aenv (ErrorChecking stock) ast1 of
             Inl e1 \<Rightarrow> (True, high_log1, ast1)
           | Inr ast2 \<Rightarrow> check_stocks aenv threshold_pct quotes rest high_log1 ast2))"

text \<open>
  \<^verbatim>\<open>check_and_notify_52_week_highs\<close>, given the watchlist and the quotes that
  \<^verbatim>\<open>get_multiple_stock_quotes\<close> returned for it. The result says whether an exception
  left the function, and gives the files and the messages afterwards.
\<close>

definition check_and_notify_52_week_highs ::
  "alert_env \<Rightarrow> rat \<Rightarrow> string list \<Rightarrow> quote dict \<Rightarrow> alert_state \<Rightarrow> bool \<times> alert_state" where
  "check_and_notify_52_week_highs aenv threshold_pct stocks quotes ast =
     (case check_stocks aenv threshold_pct quotes stocks (get_log (files ast) file_log_name) ast of
        (raised, high_log, ast1) \<Rightarrow> (raised, ast1))"

text \<open>Successive runs of the evaluator, each with its own quotes, as the scheduler makes them.\<close>

fun evaluator_runs ::
  "alert_env \<Rightarrow> rat \<Rightarrow> string list \<Rightarrow> quote dict list \<Rightarrow> alert_state \<Rightarrow> alert_state" where
  "evaluator_runs aenv threshold_pct stocks [] ast = ast"
| "evaluator_runs aenv threshold_pct stocks (quotes # later) ast =
     evaluator_runs aenv threshold_pct stocks later
       (snd (check_and_notify_52_week_highs aenv threshold_pct stocks quotes ast))"

section \<open>What the transports are to keep: the breaker and the spacing of requests\<close>

text \<open>
  A response is a success for \<^verbatim>\<open>_make_fmp_request\<close> when its status is 200 and its body
  parses and carries no error message. \<open>forbidden_run\<close> counts, in a list of responses
  with the newest first, the 403 responses received since the last success.
\<close>

fun is_success :: "fmp_body response \<Rightarrow> bool" where
  "is_success Raised = False"
| "is_success (Response status body) = (status = 200 \<and> body \<noteq> NotJson \<and> body \<noteq> ErrorMessage)"

fun is_forbidden :: "fmp_body response \<Rightarrow> bool" where
  "is_forbidden Raised = False"
| "is_forbidden (Response status body) = (status = 403)"

fun forbidden_run :: "fmp_body response list \<Rightarrow> nat" where
  "forbidden_run [] = 0"
| "forbidden_run (r # rs) =
     (if is_success r then 0
      else if is_forbidden r then Suc (forbidden_run rs)
      else forbidden_run rs)"

text \<open>
  The counter is the number of 403 responses since the last success, and the provider is
  enabled exactly as long as a key is configured and that number is below the threshold.
\<close>

definition breaker_inv :: "env \<Rightarrow> state \<Rightarrow> bool" where
  "breaker_inv env st \<longleftrightarrow>
     fmp_consecutive_forbidden st = forbidden_run (fmp_seen st) \<and>
     (FMP_ENABLED st \<longleftrightarrow> FMP_API_KEY env \<and> forbidden_run (fmp_seen st) < FMP_FORBIDDEN_THRESHOLD)"

text \<open>Request times, newest first, in which each request is at least \<open>d\<close> after the one before.\<close>

fun spaced :: "rat \<Rightarrow> rat list \<Rightarrow> bool" where
  "spaced d (t2 # t1 # ts) = (d \<le> t2 - t1 \<and> spaced d (t1 # ts))"
| "spaced d ts = True"

definition fmp_gate_inv :: "env \<Rightarrow> state \<Rightarrow> bool" where
  "fmp_gate_inv env st \<longleftrightarrow>
     spaced (FMP_REQUEST_DELAY env) (fmp_sent st) \<and>
     (fmp_sent st \<noteq> [] \<longrightarrow> last_fmp_request st = hd (fmp_sent st))"

definition yahoo_gate_inv :: "state \<Rightarrow> bool" where
  "yahoo_gate_inv st \<longleftrightarrow>
     spaced (RATE_LIMIT_DELAY / 2) (yahoo_sent st) \<and>
     (yahoo_sent st \<noteq> [] \<longrightarrow> last_request st = hd (yahoo_sent st)) \<and>
     last_request st \<le> now st"

text \<open>
  What the library and the network guarantee: \<^verbatim>\<open>random.random()\<close> lies between 0 and 1,
  and no request takes negative time.
\<close>

definition env_ok :: "env \<Rightarrow> bool" where
  "env_ok env \<longleftrightarrow>
     (\<forall>k. 0 \<le> rnd env k \<and> rnd env k \<le> 1 \<and> 0 \<le> fmp_took env k \<and> 0 \<le> yahoo_took env k)"

text \<open>
  \<open>keeps env st st1\<close>: going from \<open>st\<close> to \<open>st1\<close> keeps each of these invariants, and a
  disabled provider stays disabled and is sent nothing.
\<close>

definition keeps :: "env \<Rightarrow> state \<Rightarrow> state \<Rightarrow> bool" where
  "keeps env st st1 \<longleftrightarrow>
     (breaker_inv env st \<longrightarrow> breaker_inv env st1) \<and>
     (fmp_gate_inv env st \<longrightarrow> fmp_gate_inv env st1) \<and>
     (env_ok env \<longrightarrow> yahoo_gate_inv st \<longrightarrow> yahoo_gate_inv st1) \<and>
     (env_ok env \<longrightarrow> now st \<le> now st1) \<and>
     (\<not> FMP_ENABLED st \<longrightarrow>
        \<not> FMP_ENABLED st1 \<and> fmp_sent st1 = fmp_sent st \<and> fmp_seen st1 = fmp_seen st)"

text \<open>
  The steps of the process: the calls of the transports and of the resolver's entry
  points, and time passing between them.
\<close>

inductive process_step :: "env \<Rightarrow> state \<Rightarrow> state \<Rightarrow> bool" for env where
  fmp_request: "make_fmp_request env st = (r, st1) \<Longrightarrow> process_step env st st1"
| yahoo_request: "make_yahoo_request env st = (y, st1) \<Longrightarrow> process_step env st st1"
| company_name: "get_company_name env st symb = (n, st1) \<Longrightarrow> process_step env st st1"
| hybrid_quote: "get_hybrid_stock_quote env st symb = (q, st1) \<Longrightarrow> process_step env st st1"
| stock_quote: "get_stock_quote env st symb = (q, st1) \<Longrightarrow> process_step env st st1"
| hybrid_batch:
    "get_multiple_hybrid_quotes env st symbols m = (qs, st1) \<Longrightarrow> process_step env st st1"
| stock_batch:
    "get_multiple_stock_quotes env st symbols delays = (b, st1) \<Longrightarrow> process_step env st st1"
| history: "get_hybrid_stock_history env st symb period = (h, st1) \<Longrightarrow> process_step env st st1"
| time_passes: "0 \<le> d \<Longrightarrow> process_step env st (sleep d st)"

inductive reachable :: "env \<Rightarrow> state \<Rightarrow> bool" for env where
  start: "0 \<le> t \<Longrightarrow> reachable env (initial_state env t)"
| step: "reachable env st \<Longrightarrow> process_step env st st1 \<Longrightarrow> reachable env st1"

text \<open>A change that touches neither provider's bookkeeping and does not turn the clock back.\<close>

definition untouched :: "state \<Rightarrow> state \<Rightarrow> bool" where
  "untouched st st1 \<longleftrightarrow>
     FMP_ENABLED st1 = FMP_ENABLED st \<and>
     fmp_consecutive_forbidden st1 = fmp_consecutive_forbidden st \<and>
     fmp_seen st1 = fmp_seen st \<and> fmp_sent st1 = fmp_sent st \<and>
     last_fmp_request st1 = last_fmp_request st \<and>
     yahoo_sent st1 = yahoo_sent st \<and> last_request st1 = last_request st"

text \<open>\<open>n\<close> calls of \<^verbatim>\<open>_make_fmp_request\<close> in a row.\<close>

fun fmp_requests :: "env \<Rightarrow> nat \<Rightarrow> state \<Rightarrow> state" where
  "fmp_requests env 0 st = st"
| "fmp_requests env (Suc n) st = fmp_requests env n (snd (make_fmp_request env st))"

section \<open>Concrete inputs\<close>

text \<open>
  An environment in which both providers answer every request with 404, every request
  takes no time and every random draw is the middle of its range.
\<close>

definition env0 :: env where
  "env0 = \<lparr>FMP_API_KEY = True, HYBRID_AVAILABLE = True, FMP_REQUEST_DELAY = 1 / 2,
      fmp_http = (\<lambda>k. Response 404 EmptyObject), fmp_took = (\<lambda>k. 0),
      yahoo_http = (\<lambda>k. Response 404 YOther), yahoo_took = (\<lambda>k. 0),
      rnd = (\<lambda>k. 1 / 2), seeded = (\<lambda>s k. 1 / 2), seeded_int = (\<lambda>s k. 1000000),
      py_hash = (\<lambda>s. 0), day_of = (\<lambda>t. ''2024-01-01'')\<rparr>"

text \<open>An FMP quote object for AAPL, and an environment in which FMP answers every request with it.\<close>

definition aapl_item :: item where
  "aapl_item = \<lparr>i_symbol = Some ''AAPL'', i_name = Some ''Apple Inc.'', i_price = Num 270,
      i_change = Num 1, i_changesPercentage = Num (1 / 2), i_volume = Num 1000,
      i_yearHigh = Num 300, i_yearLow = Num 200, i_date = None, i_open = Missing,
      i_high = Missing, i_low = Missing, i_close = Missing\<rparr>"

definition env_aapl :: env where
  "env_aapl = env0\<lparr>fmp_http := (\<lambda>k. Response 200 (Array [aapl_item]))\<rparr>"

text \<open>FMP answers every request with status 201 and the same body.\<close>

definition env_created :: env where
  "env_created = env0\<lparr>fmp_http := (\<lambda>k. Response 201 (Array [aapl_item]))\<rparr>"

text \<open>FMP answers every request with status 403.\<close>

definition env_forbidden :: env where
  "env_forbidden = env0\<lparr>fmp_http := (\<lambda>k. Response 403 EmptyObject)\<rparr>"

text \<open>
  Yahoo answers its first request with 429 and the later ones with 404, and every random
  draw is the lowest value of its range.
\<close>

definition env_limited :: env where
  "env_limited = env0\<lparr>yahoo_http := (\<lambda>k. if k = 0 then Response 429 YOther else Response 404 YOther),
      rnd := (\<lambda>k. 0)\<rparr>"

declare chunks.simps [simp del]

section \<open>Properties of the log file\<close>

lemma read_stored:
  assumes "dir_ok path" and "fs path \<noteq> Some Unparsable"
  shows "\<exists>fs1. read dir_ok fs path = Inr (stored fs path, fs1) \<and>
           fs1 path = Some (JsonArray (stored fs path)) \<and> (fs path \<noteq> None \<longrightarrow> fs1 = fs)"
proof (cases "fs path")
  case None
  then show ?thesis
    using assms by (simp add: read_def ensure_def stored_def)
next
  case (Some c)
  with assms obtain logs where "c = JsonArray logs"
    by (cases c) auto
  with Some show ?thesis
    using assms by (simp add: read_def ensure_def stored_def)
qed

text \<open>
  C10. \<^verbatim>\<open>logs.append\<close> is idempotent. Where the directory can be made and the file is
  absent or holds a JSON array: an item that is already stored gives \<open>False\<close> and the
  same file system; an item that is not stored gives \<open>True\<close> and the stored array becomes
  the previous one with the item at its end; and a second append of the same item, after
  any first one that returned, gives \<open>False\<close> and changes nothing.
\<close>

theorem append_idempotent:
  assumes "dir_ok path" and "fs path \<noteq> Some Unparsable"
  shows "(item \<in> set (stored fs path) \<longrightarrow> append_item dir_ok fs path item = Inr (False, fs))
       \<and> (item \<notin> set (stored fs path) \<longrightarrow>
            (\<exists>fs1. append_item dir_ok fs path item = Inr (True, fs1)
               \<and> stored fs1 path = stored fs path @ [item]
               \<and> (\<forall>p. p \<noteq> path \<longrightarrow> fs1 p = fs p)))
       \<and> (\<forall>r fs1. append_item dir_ok fs path item = Inr (r, fs1) \<longrightarrow>
            append_item dir_ok fs1 path item = Inr (False, fs1))"
proof -
  from read_stored [of dir_ok path fs] assms obtain fs0 where
    rd: "read dir_ok fs path = Inr (stored fs path, fs0)"
    and st: "fs0 path = Some (JsonArray (stored fs path))"
    and same: "fs path \<noteq> None \<longrightarrow> fs0 = fs"
    by blast
  have frame: "\<forall>p. p \<noteq> path \<longrightarrow> fs0 p = fs p"
    using rd assms by (auto simp: read_def ensure_def split: if_splits option.splits file_content.splits)
  have present: "item \<in> set (stored fs path) \<longrightarrow> append_item dir_ok fs path item = Inr (False, fs)"
  proof
    assume mem: "item \<in> set (stored fs path)"
    then have "fs path \<noteq> None"
      by (cases "fs path") (auto simp: stored_def)
    with same have "fs0 = fs" by simp
    with rd mem show "append_item dir_ok fs path item = Inr (False, fs)"
      by (simp add: append_item_def)
  qed
  have absent: "item \<notin> set (stored fs path) \<longrightarrow>
       (\<exists>fs1. append_item dir_ok fs path item = Inr (True, fs1)
          \<and> stored fs1 path = stored fs path @ [item]
          \<and> (\<forall>p. p \<noteq> path \<longrightarrow> fs1 p = fs p))"
  proof
    assume "item \<notin> set (stored fs path)"
    with rd have "append_item dir_ok fs path item
        = Inr (True, fs0(path \<mapsto> JsonArray (stored fs path @ [item])))"
      by (simp add: append_item_def)
    moreover have "stored (fs0(path \<mapsto> JsonArray (stored fs path @ [item]))) path
        = stored fs path @ [item]"
      by (simp add: stored_def)
    moreover have "\<forall>p. p \<noteq> path \<longrightarrow> (fs0(path \<mapsto> JsonArray (stored fs path @ [item]))) p = fs p"
      using frame by simp
    ultimately show "\<exists>fs1. append_item dir_ok fs path item = Inr (True, fs1)
          \<and> stored fs1 path = stored fs path @ [item]
          \<and> (\<forall>p. p \<noteq> path \<longrightarrow> fs1 p = fs p)"
      by blast
  qed
  have again: "\<forall>r fs1. append_item dir_ok fs path item = Inr (r, fs1) \<longrightarrow>
       append_item dir_ok fs1 path item = Inr (False, fs1)"
  proof (intro allI impI)
    fix r fs1
    assume a: "append_item dir_ok fs path item = Inr (r, fs1)"
    have mem1: "item \<in> set (stored fs1 path)" and ok1: "fs1 path \<noteq> Some Unparsable"
      and some1: "fs1 path \<noteq> None"
      using a rd st by (auto simp: append_item_def stored_def split: if_splits)
    from read_stored [of dir_ok path fs1] assms(1) ok1 some1
    have "read dir_ok fs1 path = Inr (stored fs1 path, fs1)"
      by auto
    with mem1 show "append_item dir_ok fs1 path item = Inr (False, fs1)"
      by (simp add: append_item_def)
  qed
  show ?thesis
    by (intro conjI present absent again)
qed

theorem append_idempotent_witness:
  "append_item (\<lambda>p. True) [''data/logs/a.json'' \<mapsto> JsonArray [''k1'']] ''data/logs/a.json'' ''k1''
     = Inr (False, [''data/logs/a.json'' \<mapsto> JsonArray [''k1'']])"
proof -
  have "stored [''data/logs/a.json'' \<mapsto> JsonArray [''k1'']] ''data/logs/a.json'' = [''k1'']"
    by (simp add: stored_def)
  then show ?thesis
    using append_idempotent [of "\<lambda>p. True" "''data/logs/a.json''"
        "[''data/logs/a.json'' \<mapsto> JsonArray [''k1'']]" "''k1''"]
    by simp
qed

section \<open>The transports keep the breaker and the spacing of requests\<close>

lemma keeps_refl: "keeps env st st"
  by (simp add: keeps_def)

lemma keeps_trans:
  assumes "keeps env st st1" and "keeps env st1 st2"
  shows "keeps env st st2"
proof -
  have clock: "env_ok env \<longrightarrow> now st \<le> now st2"
    using assms unfolding keeps_def by force
  have off: "\<not> FMP_ENABLED st \<longrightarrow>
        \<not> FMP_ENABLED st2 \<and> fmp_sent st2 = fmp_sent st \<and> fmp_seen st2 = fmp_seen st"
    using assms unfolding keeps_def by simp
  show ?thesis
    unfolding keeps_def using assms clock off unfolding keeps_def by blast
qed

lemma keeps_untouched:
  assumes "untouched st st1" and "env_ok env \<longrightarrow> now st \<le> now st1"
  shows "keeps env st st1"
proof -
  have b: "breaker_inv env st \<longrightarrow> breaker_inv env st1"
    using assms(1) by (simp add: untouched_def breaker_inv_def)
  have f: "fmp_gate_inv env st \<longrightarrow> fmp_gate_inv env st1"
    using assms(1) by (simp add: untouched_def fmp_gate_inv_def)
  have y: "env_ok env \<longrightarrow> yahoo_gate_inv st \<longrightarrow> yahoo_gate_inv st1"
    using assms by (auto simp: untouched_def yahoo_gate_inv_def)
  have d: "\<not> FMP_ENABLED st \<longrightarrow>
        \<not> FMP_ENABLED st1 \<and> fmp_sent st1 = fmp_sent st \<and> fmp_seen st1 = fmp_seen st"
    using assms(1) by (simp add: untouched_def)
  show ?thesis
    unfolding keeps_def using b f y d assms(2) by blast
qed

lemma keeps_sleep: "(env_ok env \<longrightarrow> 0 \<le> d) \<Longrightarrow> keeps env st (sleep d st)"
  by (rule keeps_untouched) (auto simp: untouched_def sleep_def)

lemma uniform_bounds:
  assumes "uniform env a b st = (x, st1)" and "env_ok env" and "a \<le> b"
  shows "a \<le> x" and "x \<le> b"
proof -
  have x: "x = a + (b - a) * rnd env (draws st)"
    using assms(1) by (auto simp: uniform_def)
  have r: "0 \<le> rnd env (draws st)" "rnd env (draws st) \<le> 1"
    using assms(2) by (auto simp: env_ok_def)
  have "0 \<le> (b - a) * rnd env (draws st)"
    using r(1) assms(3) by simp
  then show "a \<le> x" using x by simp
  have "(b - a) * rnd env (draws st) \<le> (b - a) * 1"
    using r(2) assms(3) by (intro mult_left_mono) auto
  then show "x \<le> b" using x by simp
qed

lemma keeps_uniform: "uniform env a b st = (x, st1) \<Longrightarrow> keeps env st st1"
  by (rule keeps_untouched) (auto simp: untouched_def uniform_def)

lemma spaced_Cons: "spaced d (t # ts) \<longleftrightarrow> (ts \<noteq> [] \<longrightarrow> d \<le> t - hd ts) \<and> spaced d ts"
  by (cases ts) auto

text \<open>One pass through the gate and one request to FMP, made while the provider is enabled.\<close>

lemma fmp_exchange:
  assumes "fmp_get env (fmp_rate_limit env st) = (r, st1)"
  shows "r = fmp_http env (length (fmp_sent st))"
    and "FMP_ENABLED st1 = FMP_ENABLED st"
    and "fmp_seen st1 = fmp_seen st"
    and "fmp_consecutive_forbidden st1 = fmp_consecutive_forbidden st"
    and "FMP_ENABLED st \<Longrightarrow> keeps env st st1"
proof -
  let ?g = "fmp_rate_limit env st"
  have g: "now ?g = (if now st - last_fmp_request st < FMP_REQUEST_DELAY env
                     then last_fmp_request st + FMP_REQUEST_DELAY env else now st)"
    "last_fmp_request ?g = now ?g" "fmp_sent ?g = fmp_sent st"
    "FMP_ENABLED ?g = FMP_ENABLED st" "fmp_seen ?g = fmp_seen st"
    "fmp_consecutive_forbidden ?g = fmp_consecutive_forbidden st"
    "yahoo_sent ?g = yahoo_sent st" "last_request ?g = last_request st"
    by (simp_all add: fmp_rate_limit_def sleep_def Let_def)
  have s: "st1 = ?g\<lparr>now := now ?g + fmp_took env (length (fmp_sent ?g)),
                     fmp_sent := now ?g # fmp_sent ?g\<rparr>"
    and r: "r = fmp_http env (length (fmp_sent ?g))"
    using assms by (auto simp: fmp_get_def)
  show "r = fmp_http env (length (fmp_sent st))" using r g by simp
  show "FMP_ENABLED st1 = FMP_ENABLED st" using s g by simp
  show "fmp_seen st1 = fmp_seen st" using s g by simp
  show "fmp_consecutive_forbidden st1 = fmp_consecutive_forbidden st" using s g by simp
  assume en: "FMP_ENABLED st"
  have late: "last_fmp_request st + FMP_REQUEST_DELAY env \<le> now ?g" and mono: "now st \<le> now ?g"
    using g(1) by (auto split: if_splits)
  have b: "breaker_inv env st \<longrightarrow> breaker_inv env st1"
    using s g by (simp add: breaker_inv_def)
  have f: "fmp_gate_inv env st \<longrightarrow> fmp_gate_inv env st1"
    using s g late by (auto simp: fmp_gate_inv_def spaced_Cons)
  have c: "env_ok env \<longrightarrow> now st \<le> now st1"
    using s mono by (auto simp: env_ok_def intro: order_trans)
  have y: "env_ok env \<longrightarrow> yahoo_gate_inv st \<longrightarrow> yahoo_gate_inv st1"
    using s g c by (auto simp: yahoo_gate_inv_def)
  show "keeps env st st1"
    unfolding keeps_def using b f y c en by blast
qed

lemma keeps_seen_other:
  assumes "\<not> is_success r" and "\<not> is_forbidden r" and "FMP_ENABLED st"
  shows "keeps env st (st\<lparr>fmp_seen := r # fmp_seen st\<rparr>)"
  using assms
  by (simp add: keeps_def breaker_inv_def fmp_gate_inv_def yahoo_gate_inv_def)

lemma keeps_seen_success:
  assumes "is_success r" and "FMP_ENABLED st"
  shows "keeps env st (st\<lparr>fmp_seen := r # fmp_seen st, fmp_consecutive_forbidden := 0\<rparr>)"
  using assms
  by (simp add: keeps_def breaker_inv_def fmp_gate_inv_def yahoo_gate_inv_def)

lemma keeps_seen_forbidden:
  assumes "is_forbidden r" and "FMP_ENABLED st"
  shows "fmp_consecutive_forbidden st + 1 < FMP_FORBIDDEN_THRESHOLD \<Longrightarrow>
           keeps env st (st\<lparr>fmp_seen := r # fmp_seen st,
                            fmp_consecutive_forbidden := fmp_consecutive_forbidden st + 1\<rparr>)"
    and "FMP_FORBIDDEN_THRESHOLD \<le> fmp_consecutive_forbidden st + 1 \<Longrightarrow>
           keeps env st (st\<lparr>fmp_seen := r # fmp_seen st,
                            fmp_consecutive_forbidden := fmp_consecutive_forbidden st + 1,
                            FMP_ENABLED := False\<rparr>)"
proof -
  have ns: "\<not> is_success r"
    using assms(1) by (cases r) auto
  show "fmp_consecutive_forbidden st + 1 < FMP_FORBIDDEN_THRESHOLD \<Longrightarrow>
           keeps env st (st\<lparr>fmp_seen := r # fmp_seen st,
                            fmp_consecutive_forbidden := fmp_consecutive_forbidden st + 1\<rparr>)"
    using assms ns
    by (auto simp: keeps_def breaker_inv_def fmp_gate_inv_def yahoo_gate_inv_def)
  show "FMP_FORBIDDEN_THRESHOLD \<le> fmp_consecutive_forbidden st + 1 \<Longrightarrow>
           keeps env st (st\<lparr>fmp_seen := r # fmp_seen st,
                            fmp_consecutive_forbidden := fmp_consecutive_forbidden st + 1,
                            FMP_ENABLED := False\<rparr>)"
    using assms ns
    by (auto simp: keeps_def breaker_inv_def fmp_gate_inv_def yahoo_gate_inv_def)
qed

lemma fmp_attempt_keeps:
  assumes en: "FMP_ENABLED st" and run: "fmp_attempt env attempt st = (v, st')"
  shows "keeps env st st'" and "v = Again \<Longrightarrow> FMP_ENABLED st'"
proof -
  obtain r st1 where ex: "fmp_get env (fmp_rate_limit env st) = (r, st1)"
    by (cases "fmp_get env (fmp_rate_limit env st)")
  define st2 where "st2 = st1\<lparr>fmp_seen := r # fmp_seen st1\<rparr>"
  obtain jitter st3 where u: "uniform env (1 / 10) (3 / 10) st2 = (jitter, st3)"
    by (cases "uniform env (1 / 10) (3 / 10) st2")
  have en1: "FMP_ENABLED st1" and k1: "keeps env st st1"
    using fmp_exchange(2,5) [OF ex] en by auto
  have en2: "FMP_ENABLED st2"
    by (simp add: st2_def en1)
  have en3: "FMP_ENABLED st3"
    using u en2 by (auto simp: uniform_def)
  have j: "env_ok env \<longrightarrow> 0 \<le> jitter"
  proof
    assume "env_ok env"
    from uniform_bounds(1) [OF u this] show "0 \<le> jitter" by simp
  qed
  have k2: "keeps env st1 st2" if "\<not> is_success r" and "\<not> is_forbidden r"
    unfolding st2_def using that en1 by (rule keeps_seen_other)
  have k3: "keeps env st2 st3"
    using u by (rule keeps_uniform)
  have c: "fmp_consecutive_forbidden st2 = fmp_consecutive_forbidden st1"
    by (simp add: st2_def)
  from run ex u
  consider
      (plain) "\<not> is_success r" "\<not> is_forbidden r" "st' = st2"
    | (backoff) "\<not> is_success r" "\<not> is_forbidden r" "v = Again"
        "st' = sleep (base_delay * 2 ^ attempt) st2"
    | (limited) "\<not> is_success r" "\<not> is_forbidden r" "v = Again"
        "st' = sleep (base_delay * 2 ^ attempt + jitter) st3"
    | (tripped) "is_forbidden r" "v \<noteq> Again"
        "FMP_FORBIDDEN_THRESHOLD \<le> fmp_consecutive_forbidden st1 + 1"
        "st' = st1\<lparr>fmp_seen := r # fmp_seen st1,
                  fmp_consecutive_forbidden := fmp_consecutive_forbidden st1 + 1,
                  FMP_ENABLED := False\<rparr>"
    | (counted) "is_forbidden r" "v \<noteq> Again"
        "fmp_consecutive_forbidden st1 + 1 < FMP_FORBIDDEN_THRESHOLD"
        "st' = st1\<lparr>fmp_seen := r # fmp_seen st1,
                  fmp_consecutive_forbidden := fmp_consecutive_forbidden st1 + 1\<rparr>"
    | (success) "is_success r" "v \<noteq> Again"
        "st' = st1\<lparr>fmp_seen := r # fmp_seen st1, fmp_consecutive_forbidden := 0\<rparr>"
    by (auto simp: fmp_attempt_def Let_def st2_def
        split: response.splits if_splits fmp_body.splits)
  then have "keeps env st1 st' \<and> (v = Again \<longrightarrow> FMP_ENABLED st')"
  proof cases
    case plain
    with k2 en2 show ?thesis by simp
  next
    case backoff
    have "keeps env st2 st'"
      unfolding backoff(4) by (rule keeps_sleep) simp
    with k2 [OF backoff(1,2)] en2 backoff(4) show ?thesis
      by (auto simp: sleep_def intro: keeps_trans)
  next
    case limited
    have "keeps env st3 st'"
      unfolding limited(4) using j by (intro keeps_sleep) simp
    with k2 [OF limited(1,2)] k3 en3 limited(4) show ?thesis
      by (auto simp: sleep_def intro: keeps_trans)
  next
    case tripped
    with keeps_seen_forbidden(2) [OF tripped(1) en1] show ?thesis by simp
  next
    case counted
    with keeps_seen_forbidden(1) [OF counted(1) en1] show ?thesis by simp
  next
    case success
    with keeps_seen_success [OF success(1) en1] show ?thesis by simp
  qed
  with k1 show "keeps env st st'" and "v = Again \<Longrightarrow> FMP_ENABLED st'"
    by (auto intro: keeps_trans)
qed

lemma fmp_attempts_keeps:
  "FMP_ENABLED st \<Longrightarrow> fmp_attempts env attempts st = (res, st') \<Longrightarrow> keeps env st st'"
proof (induction attempts arbitrary: st)
  case Nil
  then show ?case by (simp add: keeps_refl)
next
  case (Cons attempt rest)
  obtain v st1 where a: "fmp_attempt env attempt st = (v, st1)"
    by (cases "fmp_attempt env attempt st")
  note k1 = fmp_attempt_keeps [OF Cons.prems(1) a]
  show ?case
  proof (cases v)
    case (Return r)
    with Cons.prems(2) a have "st' = st1" by simp
    with k1(1) show ?thesis by simp
  next
    case Again
    with Cons.prems(2) a have "fmp_attempts env rest st1 = (res, st')" by simp
    with k1(2) Again have "keeps env st1 st'"
      by (intro Cons.IH) auto
    with k1(1) show ?thesis by (rule keeps_trans)
  qed
qed

lemma make_fmp_request_keeps:
  assumes "make_fmp_request env st = (res, st')"
  shows "keeps env st st'"
proof (cases "\<not> FMP_ENABLED st \<or> \<not> FMP_API_KEY env")
  case True
  with assms have "st' = st" by (auto simp: make_fmp_request_def)
  then show ?thesis by (simp add: keeps_refl)
next
  case False
  with assms have run: "fmp_attempts env [0, 1, 2, 3] st = (res, st')"
    by (simp add: make_fmp_request_def del: fmp_attempts.simps)
  from False have "FMP_ENABLED st" by simp
  then show ?thesis using run by (rule fmp_attempts_keeps)
qed

text \<open>One pass through the Yahoo gate and one request to Yahoo.\<close>

lemma yahoo_exchange:
  assumes "yahoo_get env (wait_for_rate_limit env st) = (r, st1)"
  shows "keeps env st st1"
proof -
  let ?g = "wait_for_rate_limit env st"
  let ?e = "now st - last_request st"
  obtain jitter st0 where u: "uniform env (1 / 2) (3 / 2) st = (jitter, st0)"
    by (cases "uniform env (1 / 2) (3 / 2) st")
  have g: "now ?g = (if ?e < RATE_LIMIT_DELAY then now st + (RATE_LIMIT_DELAY - ?e) * jitter else now st)"
    "last_request ?g = now ?g" "yahoo_sent ?g = yahoo_sent st"
    "FMP_ENABLED ?g = FMP_ENABLED st" "fmp_seen ?g = fmp_seen st"
    "fmp_consecutive_forbidden ?g = fmp_consecutive_forbidden st"
    "fmp_sent ?g = fmp_sent st" "last_fmp_request ?g = last_fmp_request st"
    using u by (auto simp: wait_for_rate_limit_def sleep_def uniform_def Let_def)
  have s: "st1 = ?g\<lparr>now := now ?g + yahoo_took env (length (yahoo_sent ?g)),
                     yahoo_sent := now ?g # yahoo_sent ?g\<rparr>"
    using assms by (auto simp: yahoo_get_def)
  have b: "breaker_inv env st \<longrightarrow> breaker_inv env st1"
    using s g by (simp add: breaker_inv_def)
  have f: "fmp_gate_inv env st \<longrightarrow> fmp_gate_inv env st1"
    using s g by (simp add: fmp_gate_inv_def)
  have d: "\<not> FMP_ENABLED st \<longrightarrow>
        \<not> FMP_ENABLED st1 \<and> fmp_sent st1 = fmp_sent st \<and> fmp_seen st1 = fmp_seen st"
    using s g by simp
  have wait: "now st \<le> now ?g \<and> (last_request st \<le> now st \<longrightarrow> last_request st + RATE_LIMIT_DELAY / 2 \<le> now ?g)"
    if ok: "env_ok env"
  proof (cases "?e < RATE_LIMIT_DELAY")
    case True
    have j: "1 / 2 \<le> jitter"
      using uniform_bounds(1) [OF u ok] by simp
    have pos: "0 \<le> RATE_LIMIT_DELAY - ?e"
      using True by simp
    have "(RATE_LIMIT_DELAY - ?e) * (1 / 2) \<le> (RATE_LIMIT_DELAY - ?e) * jitter"
      using j pos by (rule mult_left_mono)
    with True g(1) pos show ?thesis
      by (auto simp: field_simps)
  next
    case False
    with g(1) show ?thesis by auto
  qed
  have c: "env_ok env \<longrightarrow> now st \<le> now st1"
  proof
    assume ok: "env_ok env"
    then have "0 \<le> yahoo_took env (length (yahoo_sent ?g))"
      by (simp add: env_ok_def)
    with wait [OF ok] s show "now st \<le> now st1" by simp
  qed
  have y: "env_ok env \<longrightarrow> yahoo_gate_inv st \<longrightarrow> yahoo_gate_inv st1"
  proof (intro impI)
    assume ok: "env_ok env" and inv: "yahoo_gate_inv st"
    have t: "0 \<le> yahoo_took env (length (yahoo_sent ?g))"
      using ok by (simp add: env_ok_def)
    from inv have "last_request st \<le> now st"
      by (simp add: yahoo_gate_inv_def)
    with wait [OF ok] have "last_request st + RATE_LIMIT_DELAY / 2 \<le> now ?g"
      by simp
    with inv s g t show "yahoo_gate_inv st1"
      by (auto simp: yahoo_gate_inv_def spaced_Cons)
  qed
  show ?thesis
    unfolding keeps_def using b f y c d by blast
qed


lemma yahoo_attempt_keeps:
  assumes "yahoo_attempt env attempt st = (v, st')"
  shows "keeps env st st'"
proof -
  obtain r st1 where ex: "yahoo_get env (wait_for_rate_limit env st) = (r, st1)"
    by (cases "yahoo_get env (wait_for_rate_limit env st)")
  obtain u sU where uU: "uniform env (3 / 2) (5 / 2) st1 = (u, sU)"
    by (cases "uniform env (3 / 2) (5 / 2) st1")
  obtain j sJ where uJ: "uniform env (1 / 2) (3 / 2) st1 = (j, sJ)"
    by (cases "uniform env (1 / 2) (3 / 2) st1")
  obtain x sX where uX: "uniform env 2 5 sJ = (x, sX)"
    by (cases "uniform env 2 5 sJ")
  have k1: "keeps env st st1"
    using ex by (rule yahoo_exchange)
  have kU: "keeps env st1 sU" and kJ: "keeps env st1 sJ" and kX: "keeps env sJ sX"
    using uU uJ uX by (auto intro: keeps_uniform)
  have bounds: "env_ok env \<longrightarrow> 0 \<le> u \<and> 0 \<le> j \<and> 0 \<le> x"
    using uniform_bounds(1) [OF uU] uniform_bounds(1) [OF uJ] uniform_bounds(1) [OF uX]
    by auto
  from assms ex uU uJ uX
  consider (stop) "st' = st1"
    | (retry) "st' = sleep ((1 + of_nat attempt) * u) sU"
    | (limited) "st' = sleep (2 ^ attempt * j + x) sX"
    by (auto simp: yahoo_attempt_def Let_def split: response.splits if_splits yahoo_body.splits)
  then have "keeps env st1 st'"
  proof cases
    case stop
    then show ?thesis by (simp add: keeps_refl)
  next
    case retry
    have "keeps env sU st'"
      unfolding retry using bounds by (intro keeps_sleep) simp
    with kU show ?thesis by (rule keeps_trans)
  next
    case limited
    have "keeps env sX st'"
      unfolding limited using bounds by (intro keeps_sleep) simp
    with kJ kX show ?thesis by (blast intro: keeps_trans)
  qed
  with k1 show ?thesis by (rule keeps_trans)
qed

lemma yahoo_attempts_keeps:
  "yahoo_attempts env attempts st = (res, st') \<Longrightarrow> keeps env st st'"
proof (induction attempts arbitrary: st)
  case Nil
  then show ?case by (simp add: keeps_refl)
next
  case (Cons attempt rest)
  obtain v st1 where a: "yahoo_attempt env attempt st = (v, st1)"
    by (cases "yahoo_attempt env attempt st")
  have k1: "keeps env st st1"
    using a by (rule yahoo_attempt_keeps)
  show ?case
  proof (cases v)
    case (Return r)
    with Cons.prems a have "st' = st1" by simp
    with k1 show ?thesis by simp
  next
    case Again
    with Cons.prems a have "yahoo_attempts env rest st1 = (res, st')"
      by simp
    then have "keeps env st1 st'"
      by (rule Cons.IH)
    with k1 show ?thesis by (rule keeps_trans)
  qed
qed

lemma make_yahoo_request_keeps:
  "make_yahoo_request env st = (res, st') \<Longrightarrow> keeps env st st'"
  unfolding make_yahoo_request_def by (rule yahoo_attempts_keeps)

lemma keeps_store: "keeps env st (store_in_cache k v st)"
  by (rule keeps_untouched) (auto simp: untouched_def store_in_cache_def)

lemma keeps_set_hybrid: "keeps env st (set_hybrid_cached_quote s q st)"
  by (rule keeps_untouched) (auto simp: untouched_def set_hybrid_cached_quote_def Let_def)

lemma keeps_quote_cache: "keeps env st (st\<lparr>quote_cache := c\<rparr>)"
  by (rule keeps_untouched) (auto simp: untouched_def)

lemma keeps_name_cache: "keeps env st (st\<lparr>company_name_cache := c\<rparr>)"
  by (rule keeps_untouched) (auto simp: untouched_def)

lemmas after_yahoo_request = keeps_trans [OF make_yahoo_request_keeps]
lemmas then_store = keeps_trans [OF _ keeps_store]
lemmas then_set_hybrid = keeps_trans [OF _ keeps_set_hybrid]
lemmas then_quote_cache = keeps_trans [OF _ keeps_quote_cache]
lemmas then_name_cache = keeps_trans [OF _ keeps_name_cache]

lemma get_yahoo_quote_keeps:
  "get_yahoo_quote env st s = (r, st') \<Longrightarrow> keeps env st st'"
  by (auto simp: get_yahoo_quote_def Let_def split: option.splits prod.splits
      intro: keeps_refl make_yahoo_request_keeps then_store)

lemma get_yahoo_company_info_keeps:
  "get_yahoo_company_info env st s = (r, st') \<Longrightarrow> keeps env st st'"
  by (auto simp: get_yahoo_company_info_def Let_def split: option.splits prod.splits
      intro: keeps_refl make_yahoo_request_keeps then_store)

lemma get_yahoo_history_keeps:
  "get_yahoo_history env st s p = (r, st') \<Longrightarrow> keeps env st st'"
  by (auto simp: get_yahoo_history_def Let_def split: option.splits prod.splits
      intro: keeps_refl make_yahoo_request_keeps then_store)

lemma yahoo_name_keeps:
  "yahoo_name env st key = (r, st') \<Longrightarrow> keeps env st st'"
  by (auto simp: yahoo_name_def split: prod.splits intro: get_yahoo_company_info_keeps)

lemma add_company_name_to_cache_keeps:
  assumes "add_company_name_to_cache env st s = (r, st')"
  shows "keeps env st st'"
proof (cases "FMP_ENABLED st")
  case True
  obtain resp st1 where ex: "fmp_get env (fmp_rate_limit env st) = (resp, st1)"
    by (cases "fmp_get env (fmp_rate_limit env st)")
  have k1: "keeps env st st1"
    using fmp_exchange(5) [OF ex True] .
  from assms True ex have "keeps env st1 st'"
    by (auto simp: add_company_name_to_cache_def Let_def split: option.splits
        intro: yahoo_name_keeps keeps_name_cache)
  with k1 show ?thesis by (rule keeps_trans)
next
  case False
  with assms show ?thesis
    by (auto simp: add_company_name_to_cache_def Let_def intro: yahoo_name_keeps)
qed

lemma get_company_name_keeps:
  "get_company_name env st s = (r, st') \<Longrightarrow> keeps env st st'"
  by (auto simp: get_company_name_def Let_def split: option.splits if_splits
      intro: keeps_refl add_company_name_to_cache_keeps)

lemma yahoo_fallback_keeps:
  "yahoo_fallback env st s = (r, st') \<Longrightarrow> keeps env st st'"
  by (auto simp: yahoo_fallback_def Let_def split: option.splits prod.splits
      intro: get_yahoo_quote_keeps then_set_hybrid then_quote_cache)

lemma get_hybrid_stock_quote_keeps:
  assumes "get_hybrid_stock_quote env st s = (r, st')"
  shows "keeps env st st'"
proof (cases "get_hybrid_cached_quote st s = None \<and> FMP_ENABLED st")
  case False
  with assms show ?thesis
    by (auto simp: get_hybrid_stock_quote_def split: option.splits
        intro: keeps_refl yahoo_fallback_keeps)
next
  case True
  obtain fmp_data st1 where m: "make_fmp_request env st = (fmp_data, st1)"
    by (cases "make_fmp_request env st")
  obtain company_name st2 where n: "get_company_name env st1 s = (company_name, st2)"
    by (cases "get_company_name env st1 s")
  have k1: "keeps env st st1" and k2: "keeps env st1 st2"
    using m n by (auto intro: make_fmp_request_keeps get_company_name_keeps)
  from assms True m n have "keeps env st1 st'"
    by (auto simp: get_hybrid_stock_quote_def split: option.splits sum.splits
        intro: keeps_refl yahoo_fallback_keeps get_company_name_keeps
          then_set_hybrid [OF get_company_name_keeps])
  with k1 show ?thesis by (rule keeps_trans)
qed

lemma get_stock_quote_keeps:
  "get_stock_quote env st s = (r, st') \<Longrightarrow> keeps env st st'"
  by (auto simp: get_stock_quote_def Let_def
      split: option.splits prod.splits sum.splits if_splits
      intro: get_hybrid_stock_quote_keeps get_yahoo_quote_keeps)


lemma yahoo_items_keeps:
  "yahoo_items its results st = (res, st') \<Longrightarrow> keeps env st st'"
proof (induction its arbitrary: results st)
  case Nil
  then show ?case by (simp add: keeps_refl)
next
  case (Cons it rest)
  then show ?case
    by (auto simp: Let_def split: option.splits if_splits
        intro: keeps_trans [OF keeps_store])
qed

lemma yahoo_singles_keeps:
  "yahoo_singles env ss results st = (res, st') \<Longrightarrow> keeps env st st'"
proof (induction ss arbitrary: results st)
  case Nil
  then show ?case by (simp add: keeps_refl)
next
  case (Cons s rest)
  then show ?case
    by (auto split: option.splits prod.splits
        intro: keeps_trans [OF get_yahoo_quote_keeps])
qed

lemma get_yahoo_batch_quotes_keeps:
  "get_yahoo_batch_quotes env st symbols = (res, st') \<Longrightarrow> keeps env st st'"
  by (auto simp: get_yahoo_batch_quotes_def Let_def split: prod.splits if_splits
      intro: keeps_refl keeps_trans [OF make_yahoo_request_keeps yahoo_items_keeps]
        keeps_trans [OF make_yahoo_request_keeps yahoo_singles_keeps])

lemma yahoo_merge_keeps:
  "yahoo_merge ym results st = (res, st') \<Longrightarrow> keeps env st st'"
proof (induction ym arbitrary: results st)
  case Nil
  then show ?case by (simp add: keeps_refl)
next
  case (Cons a rest)
  obtain symb q where a: "a = (symb, q)" by (cases a)
  let ?tagged = "q\<lparr>source := Some ''yahoo''\<rparr>"
  let ?key = "get_cache_key symb ''quote''"
  let ?st1 = "if quote_cache st ?key = Some (CQuote q)
              then st\<lparr>quote_cache := (quote_cache st)(?key \<mapsto> CQuote ?tagged)\<rparr> else st"
  have k1: "keeps env st ?st1"
    by (simp add: keeps_refl keeps_quote_cache)
  have k2: "keeps env ?st1 (set_hybrid_cached_quote symb ?tagged ?st1)"
    by (rule keeps_set_hybrid)
  from Cons.prems a
  have "yahoo_merge rest (dict_set symb ?tagged results)
          (set_hybrid_cached_quote symb ?tagged ?st1) = (res, st')"
    by (simp add: Let_def)
  then have "keeps env (set_hybrid_cached_quote symb ?tagged ?st1) st'"
    by (rule Cons.IH)
  with k1 k2 show ?case
    by (blast intro: keeps_trans)
qed

lemma fmp_items_keeps:
  "fmp_items its results served st = (raised, res, served', st') \<Longrightarrow> keeps env st st'"
proof (induction its arbitrary: results served st)
  case Nil
  then show ?case by (simp add: keeps_refl)
next
  case (Cons it rest)
  then show ?case
    by (auto simp: Let_def split: option.splits if_splits sum.splits
        intro: keeps_refl keeps_name_cache
          keeps_trans [OF keeps_set_hybrid]
          keeps_trans [OF keeps_name_cache keeps_trans [OF keeps_set_hybrid]])
qed

lemma fmp_batches_keeps:
  "fmp_batches env bs results served st = (raised, res, served', st') \<Longrightarrow> keeps env st st'"
proof (induction bs arbitrary: results served st)
  case Nil
  then show ?case by (simp add: keeps_refl)
next
  case (Cons b rest)
  obtain data st1 where m: "make_fmp_request env st = (data, st1)"
    by (cases "make_fmp_request env st")
  have k1: "keeps env st st1"
    using m by (rule make_fmp_request_keeps)
  from Cons.prems m have "keeps env st1 st'"
    by (auto split: prod.splits if_splits
        intro: Cons.IH fmp_items_keeps keeps_trans [OF fmp_items_keeps Cons.IH])
  with k1 show ?case by (rule keeps_trans)
qed


lemma get_multiple_hybrid_quotes_keeps:
  assumes "get_multiple_hybrid_quotes env st symbols m = (res, st')"
  shows "keeps env st st'"
proof -
  define results0 where "results0 = fold (\<lambda>s results. case get_hybrid_cached_quote st s of
                                            Some cached_data \<Rightarrow> dict_set s cached_data results
                                          | None \<Rightarrow> results) symbols []"
  define remaining where "remaining = filter (\<lambda>s. get_hybrid_cached_quote st s = None) symbols"
  define fmp where "fmp = (if FMP_ENABLED st
                   then (if m = 0 then (True, results0, [], st)
                         else fmp_batches env (chunks m remaining) results0 [] st)
                   else (False, results0, [], st))"
  obtain raised results1 fmp_served st1 where f: "fmp = (raised, results1, fmp_served, st1)"
    by (cases fmp) auto
  have k1: "keeps env st st1"
  proof (cases "FMP_ENABLED st \<and> m \<noteq> 0")
    case True
    with f have "fmp_batches env (chunks m remaining) results0 [] st
        = (raised, results1, fmp_served, st1)"
      by (simp add: fmp_def del: chunks.simps fmp_batches.simps)
    then show ?thesis by (rule fmp_batches_keeps)
  next
    case False
    with f have "st1 = st"
      by (auto simp: fmp_def split: if_splits)
    then show ?thesis by (simp add: keeps_refl)
  qed
  define yahoo_symbols where "yahoo_symbols = filter (\<lambda>s. upper s \<notin> set fmp_served) remaining"
  obtain yahoo_map st2 where y: "get_yahoo_batch_quotes env st1 yahoo_symbols = (yahoo_map, st2)"
    by (cases "get_yahoo_batch_quotes env st1 yahoo_symbols")
  have k2: "keeps env st1 st2"
    using y by (rule get_yahoo_batch_quotes_keeps)
  from assms f y
  have "st' = st \<or> st' = st1 \<or> snd (yahoo_merge yahoo_map results1 st2) = st'"
    unfolding get_multiple_hybrid_quotes_def Let_def
      results0_def [symmetric] remaining_def [symmetric] fmp_def [symmetric]
    by (auto simp: yahoo_symbols_def [symmetric] split: if_splits simp del: chunks.simps)
  then show ?thesis
  proof (elim disjE)
    assume "st' = st"
    then show ?thesis by (simp add: keeps_refl)
  next
    assume "st' = st1"
    with k1 show ?thesis by simp
  next
    assume "snd (yahoo_merge yahoo_map results1 st2) = st'"
    then have "keeps env st2 st'"
      by (cases "yahoo_merge yahoo_map results1 st2") (auto intro: yahoo_merge_keeps)
    with k1 k2 show ?thesis by (blast intro: keeps_trans)
  qed
qed

lemma hybrid_one_by_one_keeps:
  "hybrid_one_by_one env ss results st = (res, st') \<Longrightarrow> keeps env st st'"
proof (induction ss arbitrary: results st)
  case Nil
  then show ?case by (simp add: keeps_refl)
next
  case (Cons s rest)
  obtain q st1 where h: "get_hybrid_stock_quote env st s = (q, st1)"
    by (cases "get_hybrid_stock_quote env st s")
  have k1: "keeps env st st1"
    using h by (rule get_hybrid_stock_quote_keeps)
  from Cons.prems h have "keeps env st1 st'"
    by (auto split: sum.splits option.splits intro: keeps_refl Cons.IH)
  with k1 show ?case by (rule keeps_trans)
qed

lemma get_multiple_quotes_from_keeps:
  "get_multiple_quotes_from env delays i ss results st = (res, st') \<Longrightarrow> keeps env st st'"
proof (induction ss arbitrary: i results st)
  case Nil
  then show ?case by (simp add: keeps_refl)
next
  case (Cons s rest)
  obtain q st1 where h: "get_yahoo_quote env st s = (q, st1)"
    by (cases "get_yahoo_quote env st s")
  have k1: "keeps env st st1"
    using h by (rule get_yahoo_quote_keeps)
  define s2 where "s2 = (if delays \<and> rest \<noteq> []
      then sleep (if (i + 1) mod 2 = 0 then 60 else 30) st1 else st1)"
  have k2: "keeps env st1 s2"
    by (auto simp: s2_def intro: keeps_refl keeps_sleep)
  from Cons.prems h
  have "get_multiple_quotes_from env delays (i + 1) rest
          (case q of Some q1 \<Rightarrow> dict_set s q1 results | None \<Rightarrow> results) s2 = (res, st')"
    by (simp add: s2_def)
  then have "keeps env s2 st'"
    by (rule Cons.IH)
  with k1 k2 show ?case by (blast intro: keeps_trans)
qed

lemma get_multiple_quotes_keeps:
  "get_multiple_quotes env st ss delays = (res, st') \<Longrightarrow> keeps env st st'"
  unfolding get_multiple_quotes_def by (rule get_multiple_quotes_from_keeps)

lemma get_quotes_with_smart_delays_keeps:
  "get_quotes_with_smart_delays env st ss = (res, st') \<Longrightarrow> keeps env st st'"
  by (auto simp: get_quotes_with_smart_delays_def split: if_splits prod.splits
      intro: get_multiple_quotes_keeps
        keeps_trans [OF get_multiple_quotes_keeps keeps_sleep])

lemma get_multiple_stock_quotes_keeps:
  assumes "get_multiple_stock_quotes env st ss delays = (res, st')"
  shows "keeps env st st'"
proof -
  from assms show ?thesis
    by (auto simp: get_multiple_stock_quotes_def split: if_splits sum.splits prod.splits
        intro: keeps_refl get_multiple_hybrid_quotes_keeps
          keeps_trans [OF get_multiple_hybrid_quotes_keeps hybrid_one_by_one_keeps]
          get_quotes_with_smart_delays_keeps get_multiple_quotes_keeps)
qed

lemma yahoo_history_keeps:
  "yahoo_history env st s p = (r, st') \<Longrightarrow> keeps env st st'"
  by (auto simp: yahoo_history_def split: option.splits prod.splits
      intro: get_yahoo_history_keeps)

lemma get_hybrid_stock_history_keeps:
  assumes "get_hybrid_stock_history env st s p = (r, st')"
  shows "keeps env st st'"
proof -
  from assms show ?thesis
    by (auto simp: get_hybrid_stock_history_def Let_def split: if_splits prod.splits
        intro: make_fmp_request_keeps yahoo_history_keeps
          keeps_trans [OF make_fmp_request_keeps yahoo_history_keeps])
qed

lemma process_step_keeps: "process_step env st st' \<Longrightarrow> keeps env st st'"
proof (induction rule: process_step.induct)
  case (time_passes d st)
  then show ?case by (intro keeps_sleep) simp
qed (auto intro: make_fmp_request_keeps make_yahoo_request_keeps get_company_name_keeps
      get_hybrid_stock_quote_keeps get_stock_quote_keeps get_multiple_hybrid_quotes_keeps
      get_multiple_stock_quotes_keeps get_hybrid_stock_history_keeps)

lemma process_run_keeps: "(process_step env)\<^sup>*\<^sup>* st st' \<Longrightarrow> keeps env st st'"
  by (induction rule: rtranclp_induct) (auto intro: keeps_refl keeps_trans process_step_keeps)

lemma initial_state_inv:
  "breaker_inv env (initial_state env t)" "fmp_gate_inv env (initial_state env t)"
  "0 \<le> t \<Longrightarrow> yahoo_gate_inv (initial_state env t)"
  by (simp_all add: breaker_inv_def fmp_gate_inv_def yahoo_gate_inv_def initial_state_def)

lemma reachable_inv:
  assumes "reachable env st"
  shows "breaker_inv env st" and "fmp_gate_inv env st" and "env_ok env \<Longrightarrow> yahoo_gate_inv st"
  using assms
proof (induction rule: reachable.induct)
  case (start t)
  {
    case 1 show ?case by (rule initial_state_inv)
  next
    case 2 show ?case by (rule initial_state_inv)
  next
    case 3 show ?case using start by (rule initial_state_inv)
  }
next
  case (step st st1)
  from step.hyps(2) have k: "keeps env st st1"
    by (rule process_step_keeps)
  {
    case 1 show ?case using k step.IH(1) by (simp add: keeps_def)
  next
    case 2 show ?case using k step.IH(2) by (simp add: keeps_def)
  next
    case 3 then show ?case using k step.IH(3) by (simp add: keeps_def)
  }
qed


lemma fmp_requests_numeral:
  "fmp_requests env (numeral k) st
     = fmp_requests env (pred_numeral k) (snd (make_fmp_request env st))"
  by (simp add: numeral_eq_Suc)

lemmas fmp_eval = make_fmp_request_def fmp_attempt_def fmp_get_def fmp_rate_limit_def sleep_def
  uniform_def Let_def fmp_requests_numeral env0_def initial_state_def

section \<open>The FMP transport on a successful response\<close>

text \<open>
  C8, as stated, fails: a response with status 201 is a 2xx response, yet the transport
  returns \<^verbatim>\<open>None\<close> for it and leaves the counter of consecutive 403 responses (here 3)
  as it was. The code tests \<^verbatim>\<open>status != 200\<close>.
\<close>

theorem created_status_counterexample:
  "fst (make_fmp_request env_created ((initial_state env_created 1000)\<lparr>fmp_consecutive_forbidden := 3\<rparr>)) = None
   \<and> fmp_consecutive_forbidden (snd (make_fmp_request env_created
         ((initial_state env_created 1000)\<lparr>fmp_consecutive_forbidden := 3\<rparr>))) = 3"
  by (simp add: fmp_eval env_created_def)

text \<open>
  C8, amended. In every pass of the transport's loop, a response with status 200 whose
  body parses and is not an object with an error message makes the transport return
  that body with the counter reset to 0; a response with any other 2xx status makes it
  return \<^verbatim>\<open>None\<close> with the counter unchanged.
\<close>

theorem success_resets_counter:
  assumes "fmp_http env (length (fmp_sent st)) = Response status body"
  shows "(status = 200 \<and> body \<noteq> NotJson \<and> body \<noteq> ErrorMessage \<longrightarrow>
            (\<exists>st1. fmp_attempts env (attempt # rest) st = (Some body, st1)
               \<and> fmp_consecutive_forbidden st1 = 0))
       \<and> (200 < status \<and> status < 300 \<longrightarrow>
            (\<exists>st1. fmp_attempts env (attempt # rest) st = (None, st1)
               \<and> fmp_consecutive_forbidden st1 = fmp_consecutive_forbidden st))"
proof -
  obtain r st1 where ex: "fmp_get env (fmp_rate_limit env st) = (r, st1)"
    by (cases "fmp_get env (fmp_rate_limit env st)")
  have r: "r = Response status body" and c: "fmp_consecutive_forbidden st1 = fmp_consecutive_forbidden st"
    using fmp_exchange(1,4) [OF ex] assms by auto
  have ok: "status = 200 \<and> body \<noteq> NotJson \<and> body \<noteq> ErrorMessage \<longrightarrow>
            (\<exists>st1. fmp_attempts env (attempt # rest) st = (Some body, st1)
               \<and> fmp_consecutive_forbidden st1 = 0)"
    using ex r by (cases body) (auto simp: fmp_attempt_def Let_def)
  have other: "200 < status \<and> status < 300 \<longrightarrow>
            (\<exists>st1. fmp_attempts env (attempt # rest) st = (None, st1)
               \<and> fmp_consecutive_forbidden st1 = fmp_consecutive_forbidden st)"
    using ex r c by (auto simp: fmp_attempt_def Let_def)
  from ok other show ?thesis by (rule conjI)
qed

theorem success_resets_counter_witness:
  "\<exists>st1. fmp_attempts env_aapl [0, 1, 2, 3] (initial_state env_aapl 1000) = (Some (Array [aapl_item]), st1)
      \<and> fmp_consecutive_forbidden st1 = 0"
proof -
  have "fmp_http env_aapl (length (fmp_sent (initial_state env_aapl 1000))) = Response 200 (Array [aapl_item])"
    by (simp add: env_aapl_def env0_def)
  from success_resets_counter [OF this, of 0 "[1, 2, 3]"] show ?thesis
    by simp
qed

section \<open>The circuit breaker\<close>

lemma fmp_requests_reachable:
  "reachable env st \<Longrightarrow> reachable env (fmp_requests env n st)"
proof (induction n arbitrary: st)
  case 0
  then show ?case by simp
next
  case (Suc n)
  have "process_step env st (snd (make_fmp_request env st))"
    by (rule process_step.fmp_request [of env st "fst (make_fmp_request env st)"]) simp
  with Suc.prems have "reachable env (snd (make_fmp_request env st))"
    by (rule reachable.step)
  then show ?case
    using Suc.IH by simp
qed

text \<open>
  C4. In every reachable state the counter is the number of 403 responses that the
  transport has received since its last success. Once that number has reached the
  threshold, then in every state that the process reaches later the provider is
  disabled, a request through the transport returns \<^verbatim>\<open>None\<close> and leaves the state as it
  is (so no HTTP request is made), no request at all has been sent to FMP in between,
  and a call of the resolver that the quote cache does not answer is the Yahoo fallback.
\<close>

theorem circuit_breaker:
  assumes "reachable env st"
    and "FMP_FORBIDDEN_THRESHOLD \<le> forbidden_run (fmp_seen st)"
    and "(process_step env)\<^sup>*\<^sup>* st st'"
  shows "fmp_consecutive_forbidden st = forbidden_run (fmp_seen st)
       \<and> \<not> FMP_ENABLED st'
       \<and> make_fmp_request env st' = (None, st')
       \<and> fmp_sent st' = fmp_sent st
       \<and> (get_hybrid_cached_quote st' symb = None \<longrightarrow>
            get_hybrid_stock_quote env st' symb = yahoo_fallback env st' symb)"
proof -
  have inv: "breaker_inv env st"
    using assms(1) by (rule reachable_inv)
  with assms(2) have off: "\<not> FMP_ENABLED st"
    by (simp add: breaker_inv_def)
  have "keeps env st st'"
    using assms(3) by (rule process_run_keeps)
  with off have off': "\<not> FMP_ENABLED st'" and sent: "fmp_sent st' = fmp_sent st"
    by (simp_all add: keeps_def)
  have req: "make_fmp_request env st' = (None, st')"
    using off' by (simp add: make_fmp_request_def)
  have quote: "get_hybrid_cached_quote st' symb = None \<longrightarrow>
      get_hybrid_stock_quote env st' symb = yahoo_fallback env st' symb"
    using off' by (simp add: get_hybrid_stock_quote_def)
  from inv off' req sent quote show ?thesis
    by (simp add: breaker_inv_def)
qed


theorem circuit_breaker_witness:
  "\<not> FMP_ENABLED (fmp_requests env_forbidden 10 (initial_state env_forbidden 1000))
   \<and> make_fmp_request env_forbidden (fmp_requests env_forbidden 10 (initial_state env_forbidden 1000))
       = (None, fmp_requests env_forbidden 10 (initial_state env_forbidden 1000))"
proof -
  let ?st = "fmp_requests env_forbidden 10 (initial_state env_forbidden 1000)"
  have "reachable env_forbidden (initial_state env_forbidden 1000)"
    by (rule reachable.start) simp
  then have r: "reachable env_forbidden ?st"
    by (rule fmp_requests_reachable)
  have f: "FMP_FORBIDDEN_THRESHOLD \<le> forbidden_run (fmp_seen ?st)"
    by (simp add: fmp_eval env_forbidden_def)
  have p: "(process_step env_forbidden)\<^sup>*\<^sup>* ?st ?st"
    by simp
  from circuit_breaker [OF r f p, of "''AAPL''"] show ?thesis
    by blast
qed


end
